theory Spec2Isabelle
  imports
    Complex_Main
    "HOL-Library.Word"
    "HOL-Library.Log_Nat"
    "HOL-Library.Signed_Division"
    "HOL-Library.Sublist"
begin

section \<open>Machine numbers of the Go program\<close>

subsection \<open>int64\<close>

text \<open>
  Go's \<^verbatim>\<open>int64\<close> is a 64-bit word read in two's complement: \<open>+\<close>, \<open>-\<close> and unary minus
  wrap around. Go's \<^verbatim>\<open>/\<close> and \<^verbatim>\<open>%\<close> truncate towards zero (the remainder has the sign of
  the dividend); the only callers here divide by a positive number.
  Go's \<^verbatim>\<open>int\<close> (the type of \<^verbatim>\<open>scale\<close> and of the argument of \<^verbatim>\<open>Split\<close>) is modelled by HOL's
  \<open>int\<close>; \<^verbatim>\<open>int64(n)\<close> is \<open>word_of_int n\<close>.
\<close>

type_synonym int64 = "64 word"

definition div64 :: "int64 \<Rightarrow> int64 \<Rightarrow> int64" where
  "div64 a b = word_of_int (sint a sdiv sint b)"

definition mod64 :: "int64 \<Rightarrow> int64 \<Rightarrow> int64" where
  "mod64 a b = word_of_int (sint a smod sint b)"

subsection \<open>float64\<close>

text \<open>
  An IEEE-754 binary64 value is a signed finite magnitude (a rational, with a sign also
  when the magnitude is 0), a signed infinity, or NaN. \<open>Finite neg mag\<close> has the value
  \<open>- mag\<close> when \<open>neg\<close> holds and \<open>mag\<close> otherwise. Every operation rounds its exact
  result to the nearest binary64 value, ties to even (Go evaluates \<^verbatim>\<open>float64\<close>
  arithmetic in this mode, without fusing a multiplication with an addition on amd64).
\<close>

datatype float64 = Finite bool rat | Infinity bool | NaN

definition pow2 :: "int \<Rightarrow> rat" where
  "pow2 k = (if 0 \<le> k then 2 ^ nat k else 1 / 2 ^ nat (- k))"

text \<open>The binary exponent of a positive rational: \<open>pow2 (ilog2 q) \<le> q < pow2 (ilog2 q + 1)\<close>.\<close>

definition ilog2 :: "rat \<Rightarrow> int" where
  "ilog2 q = (if 1 \<le> q then bitlen \<lfloor>q\<rfloor> - 1 else - bitlen (\<lceil>1 / q\<rceil> - 1))"

definition round_half_even :: "rat \<Rightarrow> int" where
  "round_half_even x = (let f = \<lfloor>x\<rfloor>; r = x - of_int f in
     if r < 1 / 2 then f else if 1 / 2 < r then f + 1 else if even f then f else f + 1)"

text \<open>
  The distance between neighbouring binary64 values around the positive rational \<open>q\<close>:
  53 significant bits, and the subnormal spacing \<open>2^-1074\<close> at the bottom.
\<close>

definition quantum :: "rat \<Rightarrow> rat" where
  "quantum q = pow2 (max (ilog2 q - 52) (- 1074))"

definition round64 :: "rat \<Rightarrow> rat" where
  "round64 q = (if q = 0 then 0 else of_int (round_half_even (q / quantum q)) * quantum q)"

text \<open>Rounding a magnitude to binary64; a result of \<open>2^1024\<close> or more overflows to infinity.\<close>

definition mk_float :: "bool \<Rightarrow> rat \<Rightarrow> float64" where
  "mk_float neg q = (let r = round64 q in if pow2 1024 \<le> r then Infinity neg else Finite neg r)"

text \<open>A decimal constant of the source text (\<^verbatim>\<open>0.5\<close>, \<^verbatim>\<open>1e22\<close>), converted to \<^verbatim>\<open>float64\<close>.\<close>

definition lit :: "rat \<Rightarrow> float64" where
  "lit q = mk_float (q < 0) \<bar>q\<bar>"

definition fval :: "bool \<Rightarrow> rat \<Rightarrow> rat" where
  "fval neg mag = (if neg then - mag else mag)"

fun fneg :: "float64 \<Rightarrow> float64" where
  "fneg (Finite s m) = Finite (\<not> s) m"
| "fneg (Infinity s) = Infinity (\<not> s)"
| "fneg NaN = NaN"

fun fmul :: "float64 \<Rightarrow> float64 \<Rightarrow> float64" where
  "fmul NaN y = NaN"
| "fmul x NaN = NaN"
| "fmul (Infinity s) (Infinity t) = Infinity (s \<noteq> t)"
| "fmul (Infinity s) (Finite t m) = (if m = 0 then NaN else Infinity (s \<noteq> t))"
| "fmul (Finite s m) (Infinity t) = (if m = 0 then NaN else Infinity (s \<noteq> t))"
| "fmul (Finite s m) (Finite t n) = mk_float (s \<noteq> t) (m * n)"

fun fadd :: "float64 \<Rightarrow> float64 \<Rightarrow> float64" where
  "fadd NaN y = NaN"
| "fadd x NaN = NaN"
| "fadd (Infinity s) (Infinity t) = (if s = t then Infinity s else NaN)"
| "fadd (Infinity s) (Finite t m) = Infinity s"
| "fadd (Finite s m) (Infinity t) = Infinity t"
| "fadd (Finite s m) (Finite t n) =
     (let v = fval s m + fval t n
      in if v = 0 then Finite (s \<and> t) 0 else mk_float (v < 0) \<bar>v\<bar>)"

definition fsub :: "float64 \<Rightarrow> float64 \<Rightarrow> float64" where
  "fsub x y = fadd x (fneg y)"

fun fdiv :: "float64 \<Rightarrow> float64 \<Rightarrow> float64" where
  "fdiv NaN y = NaN"
| "fdiv x NaN = NaN"
| "fdiv (Infinity s) (Infinity t) = NaN"
| "fdiv (Infinity s) (Finite t m) = Infinity (s \<noteq> t)"
| "fdiv (Finite s m) (Infinity t) = Finite (s \<noteq> t) 0"
| "fdiv (Finite s m) (Finite t n) =
     (if n = 0 then (if m = 0 then NaN else Infinity (s \<noteq> t))
      else mk_float (s \<noteq> t) (m / n))"

text \<open>Go's \<^verbatim>\<open>==\<close> on \<^verbatim>\<open>float64\<close>: NaN equals nothing, and the two zeros are equal.\<close>

fun feq :: "float64 \<Rightarrow> float64 \<Rightarrow> bool" where
  "feq (Finite s m) (Finite t n) = (fval s m = fval t n)"
| "feq (Infinity s) (Infinity t) = (s = t)"
| "feq x y = False"

text \<open>\<^verbatim>\<open>float64(x)\<close> of an \<^verbatim>\<open>int64\<close>: the nearest binary64 value.\<close>

definition float64_of_int64 :: "int64 \<Rightarrow> float64" where
  "float64_of_int64 x = mk_float (sint x < 0) (of_int \<bar>sint x\<bar>)"

text \<open>
  \<^verbatim>\<open>int64(f)\<close> of a \<^verbatim>\<open>float64\<close> discards the fraction (truncation towards zero). When the
  result does not fit (NaN, an infinity, a magnitude beyond the \<^verbatim>\<open>int64\<close> range) the Go
  specification leaves the value to the implementation: it is the parameter \<open>oor\<close>.
\<close>

fun int64_of_float64 :: "(float64 \<Rightarrow> int64) \<Rightarrow> float64 \<Rightarrow> int64" where
  "int64_of_float64 oor (Finite s m) =
     (let t = (if s then - \<lfloor>m\<rfloor> else \<lfloor>m\<rfloor>)
      in if - (2 ^ 63) \<le> t \<and> t < 2 ^ 63 then word_of_int t else oor (Finite s m))"
| "int64_of_float64 oor x = oor x"

subsection \<open>Package math\<close>

fun IsNaN :: "float64 \<Rightarrow> bool" where
  "IsNaN NaN = True"
| "IsNaN x = False"

text \<open>\<^verbatim>\<open>math.IsInf(f, 0)\<close>: either infinity.\<close>

fun IsInf0 :: "float64 \<Rightarrow> bool" where
  "IsInf0 (Infinity s) = True"
| "IsInf0 x = False"

fun Abs :: "float64 \<Rightarrow> float64" where
  "Abs (Finite s m) = Finite False m"
| "Abs (Infinity s) = Infinity False"
| "Abs NaN = NaN"

text \<open>A finite value that is a whole number, keeping the sign \<open>s\<close> when it is zero.\<close>

definition whole :: "bool \<Rightarrow> int \<Rightarrow> float64" where
  "whole s n = Finite (if n = 0 then s else n < 0) (of_int \<bar>n\<bar>)"

fun Floor :: "float64 \<Rightarrow> float64" where
  "Floor (Finite s m) = whole s \<lfloor>fval s m\<rfloor>"
| "Floor x = x"

fun Ceil :: "float64 \<Rightarrow> float64" where
  "Ceil (Finite s m) = whole s \<lceil>fval s m\<rceil>"
| "Ceil x = x"

text \<open>\<^verbatim>\<open>math.Round\<close>: the nearest whole number, halfway cases away from zero.\<close>

fun Round :: "float64 \<Rightarrow> float64" where
  "Round (Finite s m) = Finite s (of_int \<lfloor>m + 1 / 2\<rfloor>)"
| "Round x = x"

text \<open>\<^verbatim>\<open>math.Modf\<close>: the whole part and the fraction, both with the sign of the argument.\<close>

fun Modf :: "float64 \<Rightarrow> float64 \<times> float64" where
  "Modf (Finite s m) = (Finite s (of_int \<lfloor>m\<rfloor>), Finite s (m - of_int \<lfloor>m\<rfloor>))"
| "Modf (Infinity s) = (Infinity s, NaN)"
| "Modf NaN = (NaN, NaN)"

text \<open>
  \<^verbatim>\<open>math.Pow10(n)\<close> multiplies (divides, for negative \<open>n\<close>) two table entries, the
  constants \<^verbatim>\<open>1e0 .. 1e31\<close> and \<^verbatim>\<open>1e0, 1e32, .. 1e288\<close> (\<^verbatim>\<open>1e-0, 1e-32, .. 1e-320\<close>);
  beyond 308 it is +Inf and below -323 it is 0.
\<close>

definition Pow10 :: "int \<Rightarrow> float64" where
  "Pow10 n =
     (if 0 \<le> n \<and> n \<le> 308
        then fmul (lit (10 ^ (32 * (nat n div 32)))) (lit (10 ^ (nat n mod 32)))
      else if - 323 \<le> n \<and> n \<le> 0
        then fdiv (lit (1 / 10 ^ (32 * (nat (- n) div 32)))) (lit (10 ^ (nat (- n) mod 32)))
      else if 0 < n then Infinity False
      else Finite False 0)"

section \<open>The money package\<close>

subsection \<open>Types\<close>

datatype RoundingMode =
    RoundHalfUp
  | RoundHalfDown
  | RoundUp
  | RoundDown
  | RoundHalfEven
  | RoundingModeOther int  \<comment> \<open>any other value of the underlying \<^verbatim>\<open>int\<close>\<close>

record Money =
  amount :: int64
  currency :: string
  scale :: int
  divisor :: int64

text \<open>
  Modelled from the spec: the declarations of \<^verbatim>\<open>FormatOptions\<close> and \<^verbatim>\<open>Currency\<close> and the
  table \<^verbatim>\<open>Currencies\<close> are not among the source files. The fields are the ones the spec's
  data model lists, under the names the package's tests use. The table is a parameter
  \<open>reg\<close> of every function that reads it.
\<close>

record FormatOptions =
  Symbol :: string
  DecimalSep :: string
  ThousandsSep :: string
  SymbolFirst :: bool
  ShowCurrency :: bool
  SpaceBetween :: bool

record Currency =
  Code :: string
  Scale :: int
  DefaultFormat :: FormatOptions

type_synonym registry = "string \<Rightarrow> Currency option"

datatype error =
    ErrInvalidCurrency
  | ErrInvalidAmount
  | ErrorInvalidRoundingMode
  | ErrInvalidFactor
  | ErrInvalidDivisor
  | ErrInvalidSplitParts
  | ErrCannotDealWithDifferentCurrencies
  | ErrParseAmount
  | ErrFreshInvalidAmount  \<comment> \<open>the \<^verbatim>\<open>errors.New("invalid amount")\<close> that \<^verbatim>\<open>New\<close> builds itself\<close>
  | ErrParseAmountWrapped  \<comment> \<open>\<^verbatim>\<open>ErrParseAmount\<close> wrapped around the error of \<^verbatim>\<open>ParseFloat\<close>\<close>
  | StrconvErrSyntax       \<comment> \<open>\<^verbatim>\<open>strconv.ErrSyntax\<close>\<close>
  | StrconvErrRange        \<comment> \<open>\<^verbatim>\<open>strconv.ErrRange\<close>\<close>
  | PanicSliceBounds       \<comment> \<open>run-time panic: slice bounds out of range\<close>

subsection \<open>round\<close>

text \<open>The source's \<^verbatim>\<open>round\<close>; the name \<open>round\<close> is taken in HOL.\<close>

fun round_money :: "(float64 \<Rightarrow> int64) \<Rightarrow> float64 \<Rightarrow> int \<Rightarrow> RoundingMode \<Rightarrow> int64" where
  "round_money oor amt scl RoundHalfUp =
     int64_of_float64 oor (Round (fmul amt (Pow10 scl)))"
| "round_money oor amt scl RoundHalfDown =
     int64_of_float64 oor
       (fsub (fadd (fmul amt (Pow10 scl)) (lit (1 / 2))) (lit (1 / 100000)))"
| "round_money oor amt scl RoundUp =
     int64_of_float64 oor (Ceil (fmul amt (Pow10 scl)))"
| "round_money oor amt scl RoundDown =
     int64_of_float64 oor (Floor (fmul amt (Pow10 scl)))"
| "round_money oor amt scl RoundHalfEven =
     (let scaled = fmul amt (Pow10 scl);
          frac = snd (Modf scaled)
      in if feq (Abs frac) (lit (1 / 2))
         then (if mod64 (int64_of_float64 oor scaled) 2 = 0
               then int64_of_float64 oor (Floor scaled)
               else int64_of_float64 oor (Ceil scaled))
         else int64_of_float64 oor (Round scaled))"
| "round_money oor amt scl (RoundingModeOther k) =
     int64_of_float64 oor (Round (fmul amt (Pow10 scl)))"

subsection \<open>Constructors and accessors\<close>

text \<open>
  \<^verbatim>\<open>strings.ToUpper\<close> on ASCII strings: the bytes \<^verbatim>\<open>a\<close> to \<^verbatim>\<open>z\<close> are moved to \<^verbatim>\<open>A\<close> to \<^verbatim>\<open>Z\<close> and
  every other byte is kept. (On a string with bytes from 128 on Go maps whole runes by
  Unicode's upper case; the model does not cover those strings.)
\<close>

definition upper_byte :: "char \<Rightarrow> char" where
  "upper_byte c =
     (if (97::nat) \<le> of_char c \<and> of_char c \<le> (122::nat) then char_of (of_char c - (32::nat)) else c)"

definition ToUpper :: "string \<Rightarrow> string" where
  "ToUpper s = map upper_byte s"

definition New ::
  "registry \<Rightarrow> (float64 \<Rightarrow> int64) \<Rightarrow> float64 \<Rightarrow> string \<Rightarrow> RoundingMode \<Rightarrow> error + Money" where
  "New reg oor amt currencyCode mode =
     (if IsNaN amt \<or> IsInf0 amt then Inl ErrFreshInvalidAmount
      else case reg (ToUpper currencyCode) of
        None \<Rightarrow> Inl ErrInvalidCurrency
      | Some cur \<Rightarrow>
          (let cents = round_money oor (fmul amt (Pow10 (Scale cur))) (Scale cur) mode
           in Inr \<lparr>amount = cents, currency = Code cur, scale = Scale cur,
                   divisor = int64_of_float64 oor (Pow10 (Scale cur))\<rparr>))"

definition NewFromSmallestUnit ::
  "registry \<Rightarrow> (float64 \<Rightarrow> int64) \<Rightarrow> int64 \<Rightarrow> string \<Rightarrow> error + Money" where
  "NewFromSmallestUnit reg oor cents currencyCode =
     (case reg currencyCode of
        None \<Rightarrow> Inl ErrInvalidCurrency
      | Some cur \<Rightarrow>
          Inr \<lparr>amount = cents, currency = currencyCode, scale = Scale cur,
                divisor = int64_of_float64 oor (Pow10 (Scale cur))\<rparr>)"

definition SmallestUnit :: "Money \<Rightarrow> int64" where
  "SmallestUnit m = amount m"

definition Currency_of :: "Money \<Rightarrow> string" where
  "Currency_of m = currency m"

subsection \<open>Arithmetic\<close>

definition Add :: "registry \<Rightarrow> (float64 \<Rightarrow> int64) \<Rightarrow> Money \<Rightarrow> Money \<Rightarrow> error + Money" where
  "Add reg oor m other =
     (if currency m \<noteq> currency other then Inl ErrCannotDealWithDifferentCurrencies
      else case NewFromSmallestUnit reg oor (amount m + amount other) (currency m) of
        Inl err \<Rightarrow> Inl err
      | Inr r \<Rightarrow> Inr r)"

definition Subtract :: "registry \<Rightarrow> (float64 \<Rightarrow> int64) \<Rightarrow> Money \<Rightarrow> Money \<Rightarrow> error + Money" where
  "Subtract reg oor m other =
     (if currency m \<noteq> currency other then Inl ErrCannotDealWithDifferentCurrencies
      else case NewFromSmallestUnit reg oor (amount m - amount other) (currency m) of
        Inl err \<Rightarrow> Inl err
      | Inr r \<Rightarrow> Inr r)"

definition Multiply ::
  "registry \<Rightarrow> (float64 \<Rightarrow> int64) \<Rightarrow> Money \<Rightarrow> float64 \<Rightarrow> RoundingMode \<Rightarrow> error + Money" where
  "Multiply reg oor m factor mode =
     (if IsNaN factor \<or> IsInf0 factor then Inl ErrInvalidFactor
      else let newAmount = round_money oor (fmul (float64_of_int64 (amount m)) factor) (scale m) mode
           in case NewFromSmallestUnit reg oor newAmount (currency m) of
                Inl err \<Rightarrow> Inl err
              | Inr r \<Rightarrow> Inr r)"

definition Divide :: "registry \<Rightarrow> (float64 \<Rightarrow> int64) \<Rightarrow> Money \<Rightarrow> float64 \<Rightarrow> error + Money" where
  "Divide reg oor m dvs =
     (if IsNaN dvs \<or> IsInf0 dvs then Inl ErrInvalidDivisor
      else let newAmount = int64_of_float64 oor (Round (fdiv (float64_of_int64 (amount m)) dvs))
           in case NewFromSmallestUnit reg oor newAmount (currency m) of
                Inl err \<Rightarrow> Inl err
              | Inr r \<Rightarrow> Inr r)"

text \<open>
  The loop of \<^verbatim>\<open>Split\<close>, from index \<open>i\<close> on. The struct literal sets three fields; the
  fourth, \<^verbatim>\<open>divisor\<close>, keeps Go's zero value.
\<close>

function Split_loop :: "Money \<Rightarrow> int64 \<Rightarrow> int64 \<Rightarrow> int \<Rightarrow> int \<Rightarrow> Money list" where
  "Split_loop m baseAmount remainder n i =
     (if i < n
      then \<lparr>amount = (if sint (word_of_int i :: int64) < sint remainder
                        then baseAmount + 1 else baseAmount),
            currency = currency m, scale = scale m, divisor = 0\<rparr>
           # Split_loop m baseAmount remainder n (i + 1)
      else [])"
  by pat_completeness auto
termination
  by (relation "measure (\<lambda>(m, b, r, n, i). nat (n - i))") auto

definition Split :: "Money \<Rightarrow> int \<Rightarrow> error + Money list" where
  "Split m n =
     (if n \<le> 0 then Inl ErrInvalidSplitParts
      else let baseAmount = div64 (amount m) (word_of_int n);
               remainder = mod64 (amount m) (word_of_int n)
           in Inr (Split_loop m baseAmount remainder n 0))"

subsection \<open>Package strings, regexp and strconv\<close>

text \<open>
  A Go string is a sequence of bytes, here a \<open>char list\<close>. \<^verbatim>\<open>unicode.IsSpace\<close> holds for the
  code points below, listed in their UTF-8 encoding.
\<close>

definition white_space :: "string list" where
  "white_space =
     [[CHR 0x09], [CHR 0x0A], [CHR 0x0B], [CHR 0x0C], [CHR 0x0D], [CHR 0x20],
      [CHR 0xC2, CHR 0x85], [CHR 0xC2, CHR 0xA0], [CHR 0xE1, CHR 0x9A, CHR 0x80],
      [CHR 0xE2, CHR 0x80, CHR 0x80], [CHR 0xE2, CHR 0x80, CHR 0x81],
      [CHR 0xE2, CHR 0x80, CHR 0x82], [CHR 0xE2, CHR 0x80, CHR 0x83],
      [CHR 0xE2, CHR 0x80, CHR 0x84], [CHR 0xE2, CHR 0x80, CHR 0x85],
      [CHR 0xE2, CHR 0x80, CHR 0x86], [CHR 0xE2, CHR 0x80, CHR 0x87],
      [CHR 0xE2, CHR 0x80, CHR 0x88], [CHR 0xE2, CHR 0x80, CHR 0x89],
      [CHR 0xE2, CHR 0x80, CHR 0x8A], [CHR 0xE2, CHR 0x80, CHR 0xA8],
      [CHR 0xE2, CHR 0x80, CHR 0xA9], [CHR 0xE2, CHR 0x80, CHR 0xAF],
      [CHR 0xE2, CHR 0x81, CHR 0x9F], [CHR 0xE3, CHR 0x80, CHR 0x80]]"

text \<open>The number of bytes of the pattern of \<open>ps\<close> that \<open>s\<close> starts with, 0 when there is none.\<close>

definition lead_width :: "string list \<Rightarrow> string \<Rightarrow> nat" where
  "lead_width ps s = (case find (\<lambda>p. prefix p s) ps of None \<Rightarrow> 0 | Some p \<Rightarrow> length p)"

function strip_leading :: "string list \<Rightarrow> string \<Rightarrow> string" where
  "strip_leading ps s =
     (if s = [] \<or> lead_width ps s = 0 then s else strip_leading ps (drop (lead_width ps s) s))"
  by pat_completeness auto
termination
  by (relation "measure (\<lambda>(ps, s). length s)") auto

text \<open>\<^verbatim>\<open>strings.TrimSpace\<close>: white space is removed at the front, then at the back.\<close>

definition TrimSpace :: "string \<Rightarrow> string" where
  "TrimSpace s = rev (strip_leading (map rev white_space) (rev (strip_leading white_space s)))"

text \<open>The width that \<^verbatim>\<open>utf8.DecodeRuneInString\<close> reports: 1 for a byte that starts no valid encoding.\<close>

definition cont_byte :: "char \<Rightarrow> bool" where
  "cont_byte c = ((0x80::nat) \<le> of_char c \<and> of_char c \<le> (0xBF::nat))"

definition rune_width :: "string \<Rightarrow> nat" where
  "rune_width s =
     (case s of [] \<Rightarrow> 0
      | c0 # rest \<Rightarrow>
        (let b0 = (of_char c0 :: nat);
             sz = (if b0 < 0xE0 then 2 else if b0 < 0xF0 then 3 else (4::nat));
             lo = (if b0 = 0xE0 then 0xA0 else if b0 = 0xF0 then 0x90 else (0x80::nat));
             hi = (if b0 = 0xED then 0x9F else if b0 = 0xF4 then 0x8F else (0xBF::nat))
         in if b0 < 0xC2 \<or> 0xF4 < b0 then 1
            else if length s < sz then 1
            else if \<not> (lo \<le> of_char (rest ! 0) \<and> of_char (rest ! 0) \<le> hi) then 1
            else if sz \<le> 2 then 2
            else if \<not> cont_byte (rest ! 1) then 1
            else if sz \<le> 3 then 3
            else if \<not> cont_byte (rest ! 2) then 1
            else 4))"

text \<open>
  \<^verbatim>\<open>strings.ReplaceAll\<close>. For a non-empty \<open>old\<close> the matches are taken from left to right
  without overlap. For an empty \<open>old\<close>, \<open>new\<close> is put in front of every rune and at the end
  (the width of the first rune of a non-empty string is at least 1; \<open>max 1\<close> only makes
  that visible to the termination proof).
\<close>

function replace_nonempty :: "string \<Rightarrow> string \<Rightarrow> string \<Rightarrow> string" where
  "replace_nonempty old new s =
     (if s = [] \<or> old = [] then s
      else if prefix old s then new @ replace_nonempty old new (drop (length old) s)
      else hd s # replace_nonempty old new (tl s))"
  by pat_completeness auto
termination
  by (relation "measure (\<lambda>(old, new, s). length s)") auto

function replace_empty :: "string \<Rightarrow> string \<Rightarrow> string" where
  "replace_empty new s =
     (if s = [] then new
      else new @ take (max 1 (rune_width s)) s @ replace_empty new (drop (max 1 (rune_width s)) s))"
  by pat_completeness auto
termination
  by (relation "measure (\<lambda>(new, s). length s)") auto

definition ReplaceAll :: "string \<Rightarrow> string \<Rightarrow> string \<Rightarrow> string" where
  "ReplaceAll s old new =
     (if old = new then s
      else if old = [] then replace_empty new s
      else replace_nonempty old new s)"

text \<open>
  Regular expressions with the operators the pattern of \<^verbatim>\<open>numberRegex\<close> uses, matched by
  derivatives. The pattern is anchored at both ends, so \<^verbatim>\<open>MatchString\<close> holds when the
  whole string is in its language.
\<close>

datatype regex =
    RNone | REps | RChr char | RDigit
  | ROpt regex | RStar regex | RPlus regex
  | RSeq regex regex | RAlt regex regex

definition is_digit :: "char \<Rightarrow> bool" where
  "is_digit c = ((48::nat) \<le> of_char c \<and> of_char c \<le> (57::nat))"

fun nullable :: "regex \<Rightarrow> bool" where
  "nullable RNone = False"
| "nullable REps = True"
| "nullable (RChr d) = False"
| "nullable RDigit = False"
| "nullable (ROpt r) = True"
| "nullable (RStar r) = True"
| "nullable (RPlus r) = nullable r"
| "nullable (RSeq r s) = (nullable r \<and> nullable s)"
| "nullable (RAlt r s) = (nullable r \<or> nullable s)"

fun deriv :: "char \<Rightarrow> regex \<Rightarrow> regex" where
  "deriv c RNone = RNone"
| "deriv c REps = RNone"
| "deriv c (RChr d) = (if c = d then REps else RNone)"
| "deriv c RDigit = (if is_digit c then REps else RNone)"
| "deriv c (ROpt r) = deriv c r"
| "deriv c (RStar r) = RSeq (deriv c r) (RStar r)"
| "deriv c (RPlus r) = RSeq (deriv c r) (RStar r)"
| "deriv c (RSeq r s) =
     (if nullable r then RAlt (RSeq (deriv c r) s) (deriv c s) else RSeq (deriv c r) s)"
| "deriv c (RAlt r s) = RAlt (deriv c r) (deriv c s)"

fun MatchString :: "regex \<Rightarrow> string \<Rightarrow> bool" where
  "MatchString r [] = nullable r"
| "MatchString r (c # cs) = MatchString (deriv c r) cs"

text \<open>The pattern \<^verbatim>\<open>^-?\d*\.?\d+$\<close>.\<close>

definition numberRegex :: regex where
  "numberRegex = RSeq (ROpt (RChr CHR ''-'')) (RSeq (RStar RDigit) (RSeq (ROpt (RChr CHR ''.'')) (RPlus RDigit)))"

text \<open>
  The language of a regular expression, to state what the matcher decides: concatenation
  and iteration of sets of strings.
\<close>

definition conc :: "string set \<Rightarrow> string set \<Rightarrow> string set" where
  "conc A B = {u @ v | u v. u \<in> A \<and> v \<in> B}"

inductive_set star :: "string set \<Rightarrow> string set" for A :: "string set" where
  star_nil: "[] \<in> star A"
| star_app: "u \<in> A \<Longrightarrow> v \<in> star A \<Longrightarrow> u @ v \<in> star A"

fun lang :: "regex \<Rightarrow> string set" where
  "lang RNone = {}"
| "lang REps = {[]}"
| "lang (RChr d) = {[d]}"
| "lang RDigit = {[c] | c. is_digit c}"
| "lang (ROpt r) = insert [] (lang r)"
| "lang (RStar r) = star (lang r)"
| "lang (RPlus r) = conc (lang r) (star (lang r))"
| "lang (RSeq r s) = conc (lang r) (lang s)"
| "lang (RAlt r s) = lang r \<union> lang s"

text \<open>
  The grammar as the spec words it, as a scanner: an optional leading minus sign, digits,
  an optional single point followed by digits, and at least one digit.
\<close>

definition spec_number_grammar :: "string \<Rightarrow> bool" where
  "spec_number_grammar s =
     (let body = (if s \<noteq> [] \<and> hd s = CHR ''-'' then tl s else s);
          ip = takeWhile is_digit body;
          rest = dropWhile is_digit body
      in if rest = [] then ip \<noteq> []
         else hd rest = CHR ''.'' \<and> tl rest \<noteq> [] \<and> list_all is_digit (tl rest))"

text \<open>
  \<^verbatim>\<open>strconv.ParseFloat(s, 64)\<close> on decimal notation without exponent (a sign, digits, at most
  one point), which covers every string that passes \<^verbatim>\<open>numberRegex\<close>: the result is the
  nearest \<^verbatim>\<open>float64\<close>, and a value that rounds to infinity is a range error. Every other
  string counts as a syntax error here.
\<close>

definition digits_val :: "string \<Rightarrow> nat" where
  "digits_val ds = foldl (\<lambda>a c. 10 * a + (of_char c - 48)) 0 ds"

definition ParseFloat :: "string \<Rightarrow> error + float64" where
  "ParseFloat s =
     (let neg = (s \<noteq> [] \<and> hd s = CHR ''-'');
          body = (if s \<noteq> [] \<and> (hd s = CHR ''-'' \<or> hd s = CHR ''+'') then tl s else s);
          ip = takeWhile is_digit body;
          rest = dropWhile is_digit body;
          fp = (if rest = [] then [] else tl rest)
      in if (rest = [] \<or> hd rest = CHR ''.'') \<and> list_all is_digit fp \<and> ip @ fp \<noteq> []
         then (case mk_float neg (of_nat (digits_val (ip @ fp)) / 10 ^ length fp) of
                 Infinity t \<Rightarrow> Inl StrconvErrRange
               | f \<Rightarrow> Inr f)
         else Inl StrconvErrSyntax)"

subsection \<open>Parse\<close>

definition Parse ::
  "registry \<Rightarrow> (float64 \<Rightarrow> int64) \<Rightarrow> string \<Rightarrow> Currency \<Rightarrow> RoundingMode \<Rightarrow> error + Money" where
  "Parse reg oor s0 cur mode =
     (let s1 = TrimSpace s0;
          s2 = ReplaceAll s1 (Symbol (DefaultFormat cur)) [];
          s3 = ReplaceAll s2 (ThousandsSep (DefaultFormat cur)) [];
          s4 = ReplaceAll s3 (DecimalSep (DefaultFormat cur)) ''.'';
          s5 = TrimSpace s4
      in if \<not> MatchString numberRegex s5 then Inl ErrParseAmount
         else case ParseFloat s5 of
                Inl err \<Rightarrow> Inl ErrParseAmountWrapped
              | Inr amt \<Rightarrow> New reg oor amt (Code cur) mode)"

subsection \<open>Format\<close>

function FormatNat :: "nat \<Rightarrow> string" where
  "FormatNat n =
     (if n < 10 then [char_of (48 + n)] else FormatNat (n div 10) @ [char_of (48 + n mod 10)])"
  by pat_completeness auto
termination
  by (relation "measure id") auto

text \<open>\<^verbatim>\<open>strconv.FormatInt(x, 10)\<close>.\<close>

definition FormatInt :: "int64 \<Rightarrow> string" where
  "FormatInt x = (if sint x < 0 then CHR ''-'' # FormatNat (nat (- sint x)) else FormatNat (nat (sint x)))"

text \<open>The loop that pads with leading zeros while \<^verbatim>\<open>len(value) <= scale\<close>.\<close>

function pad_zeros :: "string \<Rightarrow> int \<Rightarrow> string" where
  "pad_zeros v scl = (if int (length v) \<le> scl then pad_zeros (CHR ''0'' # v) scl else v)"
  by pat_completeness auto
termination
  by (relation "measure (\<lambda>(v, scl). nat (scl + 1 - int (length v)))") auto

text \<open>The loop that cuts the integer part into groups of three from the right.\<close>

function group_loop :: "string \<Rightarrow> int \<Rightarrow> string list \<Rightarrow> string list" where
  "group_loop intPart i result =
     (if 0 < i
      then (let start = max 0 (i - 3);
                grp = take (nat (i - start)) (drop (nat start) intPart)
            in group_loop intPart (i - 3)
                 (if 0 < length result then [grp] @ result else [grp]))
      else result)"
  by pat_completeness auto
termination
  by (relation "measure (\<lambda>(intPart, i, result). nat i)") auto

fun Join :: "string list \<Rightarrow> string \<Rightarrow> string" where
  "Join [] sep = []"
| "Join [x] sep = x"
| "Join (x # y # ys) sep = x @ sep @ Join (y # ys) sep"

text \<open>
  \<^verbatim>\<open>Format\<close>. The slice \<^verbatim>\<open>value[:decimalPos]\<close> panics when \<^verbatim>\<open>decimalPos\<close> exceeds the length,
  which a negative \<^verbatim>\<open>scale\<close> causes.
\<close>

definition Format :: "Money \<Rightarrow> FormatOptions \<Rightarrow> error + string" where
  "Format m opts =
     (let sign = (if sint (amount m) < 0 then ''-'' else []);
          absAmount = (if sint (amount m) < 0 then - amount m else amount m);
          val = pad_zeros (FormatInt absAmount) (scale m);
          decimalPos = int (length val) - scale m
      in if decimalPos < 0 \<or> int (length val) < decimalPos then Inl PanicSliceBounds
         else
          (let intPart = take (nat decimalPos) val;
               fracPart = drop (nat decimalPos) val;
               intPart' = (if ThousandsSep opts \<noteq> []
                           then Join (group_loop intPart (int (length intPart)) []) (ThousandsSep opts)
                           else intPart);
               result = (if 0 < scale m then intPart' @ DecimalSep opts @ fracPart else intPart');
               space = (if SpaceBetween opts then '' '' else []);
               code = (if ShowCurrency opts then space @ currency m else [])
           in Inr (if SymbolFirst opts
                   then sign @ Symbol opts @ space @ result @ code
                   else sign @ result @ space @ Symbol opts @ code)))"

subsection \<open>Money values of a registry\<close>

text \<open>
  In the data model a Money has a currency code of the registry and the scale of that
  currency: the constructors look the code up and take the scale from the entry.
  \<open>registered reg m\<close> says that \<open>m\<close> is such a value. Nothing is asked of \<^verbatim>\<open>divisor\<close>, so
  the parts that \<^verbatim>\<open>Split\<close> makes of a registered Money are registered too.
\<close>

definition registered :: "registry \<Rightarrow> Money \<Rightarrow> bool" where
  "registered reg m = (case reg (currency m) of None \<Rightarrow> False | Some cur \<Rightarrow> Scale cur = scale m)"

text \<open>
  \<^verbatim>\<open>int64(math.Pow10(scale))\<close> is \<open>10^scale\<close> as long as that fits an \<^verbatim>\<open>int64\<close>, that is for
  the scales 0 to 18.
\<close>

definition scales_supported :: "registry \<Rightarrow> bool" where
  "scales_supported reg =
     (\<forall>code cur. reg code = Some cur \<longrightarrow> 0 \<le> Scale cur \<and> Scale cur \<le> 18)"

subsection \<open>Example registry\<close>

text \<open>
  Modelled from the spec: the table \<^verbatim>\<open>Currencies\<close> is not among the source files. The
  examples below use a registry with the two currencies of the package's tests, US dollar
  and euro, both of scale 2, with the default format the parsing test gives the dollar
  (symbol \<^verbatim>\<open>$\<close>, decimal separator \<^verbatim>\<open>.\<close>, thousands separator \<^verbatim>\<open>,\<close>).
\<close>

definition USD :: Currency where
  "USD = \<lparr>Code = ''USD'', Scale = 2,
           DefaultFormat = \<lparr>Symbol = ''$'', DecimalSep = ''.'', ThousandsSep = '','',
             SymbolFirst = False, ShowCurrency = False, SpaceBetween = False\<rparr>\<rparr>"

definition EUR :: Currency where
  "EUR = \<lparr>Code = ''EUR'', Scale = 2,
           DefaultFormat = \<lparr>Symbol = ''E'', DecimalSep = '','', ThousandsSep = ''.'',
             SymbolFirst = False, ShowCurrency = False, SpaceBetween = False\<rparr>\<rparr>"

definition example_registry :: registry where
  "example_registry = [''USD'' \<mapsto> USD, ''EUR'' \<mapsto> EUR]"

text \<open>
  On amd64 the conversion instruction yields the smallest \<^verbatim>\<open>int64\<close> for every operand that
  does not fit. The examples that need a concrete platform use this one.
\<close>

definition oor_amd64 :: "float64 \<Rightarrow> int64" where
  "oor_amd64 x = - (2 ^ 63)"

declare Split_loop.simps [simp del]
declare strip_leading.simps [simp del]
declare replace_nonempty.simps [simp del]
declare replace_empty.simps [simp del]
declare FormatNat.simps [simp del]
declare pad_zeros.simps [simp del]
declare group_loop.simps [simp del]

section \<open>Properties of the float64 model\<close>

subsection \<open>Rounding to binary64 at a known exponent\<close>

lemma pow2_pos: "0 < pow2 k" by (simp add: pow2_def)

lemma bitlen_eqI:
  assumes "2 ^ k \<le> n" "n < 2 ^ Suc k"
  shows "bitlen n = int k + 1"
proof (rule antisym)
  show "bitlen n \<le> int k + 1"
    using assms(2) by (simp add: bitlen_le_iff_power nat_add_distrib)
  show "int k + 1 \<le> bitlen n"
    using assms(1) by (simp add: bitlen_ge_iff_power nat_add_distrib)
qed

lemma ilog2_unique:
  assumes "pow2 e \<le> q" "q < pow2 (e + 1)"
  shows "ilog2 q = e"
proof (cases "1 \<le> q")
  case True
  have e0: "0 \<le> e"
  proof (rule ccontr)
    assume "\<not> 0 \<le> e"
    then have "e + 1 \<le> 0" by simp
    then have "pow2 (e + 1) \<le> 1" by (auto simp: pow2_def field_simps)
    with assms True show False by simp
  qed
  define k where "k = nat e"
  have ek: "e = int k" using e0 by (simp add: k_def)
  let ?n = "\<lfloor>q\<rfloor>"
  have "(2::rat) ^ k \<le> q" using assms(1) by (simp add: pow2_def ek)
  then have "of_int (2 ^ k) \<le> q" by simp
  then have lo: "2 ^ k \<le> ?n" by (simp only: le_floor_iff)
  have "q < (2::rat) ^ Suc k" using assms(2) by (simp add: pow2_def ek nat_add_distrib)
  then have "q < of_int (2 ^ Suc k)" by simp
  then have hi: "?n < 2 ^ Suc k" by (simp only: floor_less_iff)
  have "bitlen ?n = int k + 1" using lo hi by (rule bitlen_eqI)
  then show ?thesis using True by (simp add: ilog2_def ek)
next
  case False
  have q0: "0 < q" using assms(1) pow2_pos [of e] by simp
  have e0: "e < 0"
  proof (rule ccontr)
    assume "\<not> e < 0"
    then have "1 \<le> pow2 e" by (simp add: pow2_def)
    with assms False show False by simp
  qed
  define j where "j = nat (- e - 1)"
  have ej: "e = - int j - 1" using e0 by (simp add: j_def)
  let ?r = "1 / q"
  let ?n = "\<lceil>?r\<rceil> - 1"
  have p1: "pow2 (e + 1) = 1 / 2 ^ j" by (simp add: pow2_def ej)
  have p0: "pow2 e = 1 / 2 ^ Suc j" by (simp add: pow2_def ej nat_add_distrib)
  have "q < 1 / 2 ^ j" using assms(2) unfolding p1 .
  then have "q * 2 ^ j < 1" by (simp add: field_simps)
  then have "of_int (2 ^ j) < ?r" using q0 by (simp add: field_simps)
  then have "2 ^ j < \<lceil>?r\<rceil>" by (simp only: less_ceiling_iff)
  then have lo: "2 ^ j \<le> ?n" by simp
  have "1 / 2 ^ Suc j \<le> q" using assms(1) unfolding p0 .
  then have "1 \<le> q * 2 ^ Suc j" by (simp add: field_simps)
  then have "?r \<le> of_int (2 ^ Suc j)" using q0 by (simp add: field_simps)
  then have "\<lceil>?r\<rceil> \<le> 2 ^ Suc j" by (simp only: ceiling_le_iff)
  then have hi: "?n < 2 ^ Suc j" by simp
  have "bitlen ?n = int j + 1" using lo hi by (rule bitlen_eqI)
  then show ?thesis using False by (simp add: ilog2_def ej)
qed

lemma pow2_power_int: "pow2 k = power_int 2 k"
  by (simp add: pow2_def power_int_def power_one_over inverse_eq_divide)

lemma pow2_add: "pow2 (a + b) = pow2 a * pow2 b"
  by (simp add: pow2_power_int power_int_add)

lemma round_half_even_le:
  assumes "x \<le> of_int n"
  shows "round_half_even x \<le> n"
proof -
  have f: "\<lfloor>x\<rfloor> \<le> n" using assms by (simp add: floor_le_iff)
  show ?thesis
  proof (cases "x = of_int \<lfloor>x\<rfloor>")
    case True
    then show ?thesis using f by (simp add: round_half_even_def Let_def)
  next
    case False
    then have "of_int \<lfloor>x\<rfloor> < x" by (auto simp: less_le)
    then have "of_int \<lfloor>x\<rfloor> < (of_int n :: rat)" using assms by simp
    then have "\<lfloor>x\<rfloor> < n" by simp
    then show ?thesis by (simp add: round_half_even_def Let_def)
  qed
qed

lemma mk_float_normal:
  assumes "pow2 e \<le> q" "q < pow2 (e + 1)" "- 1022 \<le> e" "e < 1023"
  shows "mk_float neg q = Finite neg (of_int (round_half_even (q / pow2 (e - 52))) * pow2 (e - 52))"
proof -
  let ?u = "pow2 (e - 52)"
  let ?n = "round_half_even (q / ?u)"
  have u: "0 < ?u" by (rule pow2_pos)
  have "q \<noteq> 0" using assms(1) pow2_pos [of e] by auto
  moreover have "max (e - 52) (- 1074) = e - 52" using assms(3) by simp
  then have "quantum q = ?u"
    by (simp add: quantum_def ilog2_unique [OF assms(1,2)])
  moreover have "of_int ?n * ?u < pow2 1024"
  proof -
    have "pow2 (e + 1) = pow2 53 * ?u"
      using pow2_add [of 53 "e - 52"] by (simp add: add.commute)
    moreover have "pow2 53 = of_int (2 ^ 53)" by (simp add: pow2_def)
    ultimately have p53: "pow2 (e + 1) = of_int (2 ^ 53) * ?u" by (simp only:)
    have "q < of_int (2 ^ 53) * ?u" using assms(2) unfolding p53 .
    then have "q / ?u \<le> of_int (2 ^ 53)" using u by (simp add: field_simps)
    then have "?n \<le> 2 ^ 53" by (rule round_half_even_le)
    then have "(of_int ?n :: rat) \<le> of_int (2 ^ 53)" by (simp only: of_int_le_iff)
    then have "of_int ?n * ?u \<le> of_int (2 ^ 53) * ?u" using u by (simp only: mult_le_cancel_right_pos)
    also have "\<dots> = pow2 (e + 1)" by (simp only: p53)
    also have "\<dots> < pow2 1024"
    proof -
      have "power_int (2::rat) (e + 1) < power_int 2 1024"
        using assms(4) by (intro power_int_strict_increasing) simp_all
      then show ?thesis by (simp only: pow2_power_int)
    qed
    finally show ?thesis .
  qed
  ultimately show ?thesis by (simp add: mk_float_def round64_def Let_def)
qed

lemma floor_rat_numeral:
  "\<lfloor>numeral a / numeral b :: rat\<rfloor> = numeral a div numeral b"
  by (metis floor_divide_of_int_eq of_int_numeral)

lemma ceiling_rat_numeral:
  "\<lceil>numeral a / numeral b :: rat\<rceil> = - (- numeral a div numeral b)"
  using ceiling_divide_eq_div [of "numeral a" "numeral b", where ?'a = rat] by simp

lemma floor_rat_minus_numeral:
  "\<lfloor>- (numeral a / numeral b) :: rat\<rfloor> = - numeral a div numeral b"
  by (metis divide_minus_left floor_divide_of_int_eq of_int_neg_numeral of_int_numeral)

lemma ceiling_rat_minus_numeral:
  "\<lceil>- (numeral a / numeral b) :: rat\<rceil> = - (numeral a div numeral b)"
  using ceiling_divide_eq_div [of "- numeral a" "numeral b", where ?'a = rat] by simp

lemmas float_eval =
  pow2_def round_half_even_def Let_def floor_rat_numeral ceiling_rat_numeral
  floor_rat_minus_numeral ceiling_rat_minus_numeral



subsection \<open>The exponent and the rounding error\<close>

text \<open>
  \<open>ilog2\<close> is the binary exponent of every positive rational, and \<open>round64\<close> moves a
  value by at most half the distance between neighbouring binary64 values.
\<close>

lemma ilog2_bounds:
  assumes "0 < q"
  shows "pow2 (ilog2 q) \<le> q \<and> q < pow2 (ilog2 q + 1)"
proof (cases "1 \<le> q")
  case True
  let ?n = "\<lfloor>q\<rfloor>"
  have n: "0 < ?n" using True by simp
  define k where "k = nat (bitlen ?n - 1)"
  have "1 \<le> bitlen ?n" using n bitlen_ge_iff_power [of 1 ?n] by simp
  then have bk: "bitlen ?n = int k + 1" by (simp add: k_def)
  have lo: "2 ^ k \<le> ?n" and hi: "?n < 2 ^ Suc k"
    using bitlen_bounds [OF n] by (simp_all add: bk nat_add_distrib)
  have e: "ilog2 q = int k" using True by (simp add: ilog2_def bk)
  have "(of_int (2 ^ k) :: rat) \<le> of_int ?n" using lo by (simp only: of_int_le_iff)
  also have "\<dots> \<le> q" by simp
  finally have 1: "pow2 (int k) \<le> q" by (simp add: pow2_def)
  have "?n + 1 \<le> 2 ^ Suc k" using hi by simp
  then have "(of_int (?n + 1) :: rat) \<le> of_int (2 ^ Suc k)" by (simp only: of_int_le_iff)
  moreover have "q < of_int (?n + 1)" using floor_correct [of q] by blast
  ultimately have "q < of_int (2 ^ Suc k)" by (rule less_le_trans [rotated])
  then have 2: "q < pow2 (int k + 1)" by (simp add: pow2_def nat_add_distrib)
  show ?thesis using 1 2 by (simp add: e)
next
  case False
  let ?r = "1 / q"
  let ?n = "\<lceil>?r\<rceil> - 1"
  have r1: "1 < ?r" using assms False by simp
  then have "1 < \<lceil>?r\<rceil>" by (simp add: less_ceiling_iff)
  then have n: "0 < ?n" by simp
  define k where "k = nat (bitlen ?n - 1)"
  have "1 \<le> bitlen ?n" using n bitlen_ge_iff_power [of 1 ?n] by simp
  then have bk: "bitlen ?n = int k + 1" by (simp add: k_def)
  have lo: "2 ^ k \<le> ?n" and hi: "?n < 2 ^ Suc k"
    using bitlen_bounds [OF n] by (simp_all add: bk nat_add_distrib)
  have e: "ilog2 q = - int k - 1" using False by (simp add: ilog2_def bk)
  have p0: "pow2 (- int k - 1) = 1 / 2 ^ Suc k" by (simp add: pow2_def nat_add_distrib)
  have p1: "pow2 (- int k - 1 + 1) = 1 / 2 ^ k" by (simp add: pow2_def)
  have "\<lceil>?r\<rceil> \<le> 2 ^ Suc k" using hi by simp
  then have "?r \<le> of_int (2 ^ Suc k)" by (simp only: ceiling_le_iff)
  then have "1 \<le> q * 2 ^ Suc k" using assms by (simp add: field_simps)
  then have 1: "1 / 2 ^ Suc k \<le> q" by (simp add: field_simps)
  have "2 ^ k < \<lceil>?r\<rceil>" using lo by simp
  then have "of_int (2 ^ k) < ?r" by (simp only: less_ceiling_iff)
  then have "q * 2 ^ k < 1" using assms by (simp add: field_simps)
  then have 2: "q < 1 / 2 ^ k" by (simp add: field_simps)
  show ?thesis using 1 2 by (simp only: e p0 p1)
qed

lemma round_half_even_nearest: "\<bar>of_int (round_half_even x) - x\<bar> \<le> 1 / 2"
proof -
  define r where "r = x - of_int \<lfloor>x\<rfloor>"
  have x: "x = of_int \<lfloor>x\<rfloor> + r" by (simp add: r_def)
  have r: "0 \<le> r" "r < 1" using floor_correct [of x] by (simp_all add: r_def)
  consider "r < 1 / 2" | "1 / 2 < r" | "r = 1 / 2" by linarith
  then show ?thesis
  proof cases
    case 1
    then have "round_half_even x = \<lfloor>x\<rfloor>"
      by (simp add: round_half_even_def Let_def r_def)
    then show ?thesis using 1 r by (subst (2) x) simp
  next
    case 2
    then have "round_half_even x = \<lfloor>x\<rfloor> + 1"
      by (simp add: round_half_even_def Let_def r_def)
    then show ?thesis using 2 r by (subst (2) x) simp
  next
    case 3
    then have "round_half_even x = \<lfloor>x\<rfloor> \<or> round_half_even x = \<lfloor>x\<rfloor> + 1"
      by (simp add: round_half_even_def Let_def r_def)
    moreover have "\<bar>of_int \<lfloor>x\<rfloor> - x\<bar> = 1 / 2" "\<bar>of_int (\<lfloor>x\<rfloor> + 1) - x\<bar> = 1 / 2"
      using 3 by (simp_all add: r_def)
    ultimately show ?thesis by auto
  qed
qed

lemma round64_nearest:
  assumes "0 < q"
  shows "\<bar>round64 q - q\<bar> \<le> quantum q / 2"
proof -
  let ?u = "quantum q"
  let ?n = "of_int (round_half_even (q / ?u)) :: rat"
  have u: "0 < ?u" by (simp add: quantum_def pow2_pos)
  have "?n * ?u - q = (?n - q / ?u) * ?u" using u by (simp add: field_simps)
  then have "\<bar>round64 q - q\<bar> = \<bar>?n - q / ?u\<bar> * ?u"
    using assms u by (simp add: round64_def abs_mult)
  also have "\<dots> \<le> 1 / 2 * ?u"
    using round_half_even_nearest [of "q / ?u"] u by (simp only: mult_le_cancel_right_pos)
  finally show ?thesis by simp
qed

subsection \<open>Converting an int64 never overflows\<close>



subsection \<open>int64 values of small integers\<close>

lemma sint_word_of_int_small:
  assumes "0 \<le> i" "i < 2 ^ 63"
  shows "sint (word_of_int i :: int64) = i"
  using assms by (simp add: sint_sbintrunc' signed_take_bit_int_eq_self)

lemma sint_word_of_int_range:
  assumes "- (2 ^ 63) \<le> i" "i < 2 ^ 63"
  shows "sint (word_of_int i :: int64) = i"
  using assms by (simp add: sint_sbintrunc' signed_take_bit_int_eq_self)

text \<open>The \<^verbatim>\<open>int64\<close> sum and difference are the exact ones whenever those fit.\<close>

lemma int64_add_exact:
  assumes "- (2 ^ 63) \<le> sint a + sint b" "sint a + sint b < 2 ^ 63"
  shows "sint (a + b :: int64) = sint a + sint b"
  using assms by (simp add: sint_word_ariths signed_take_bit_int_eq_self)

lemma int64_sub_exact:
  assumes "- (2 ^ 63) \<le> sint a - sint b" "sint a - sint b < 2 ^ 63"
  shows "sint (a - b :: int64) = sint a - sint b"
  using assms by (simp add: sint_word_ariths signed_take_bit_int_eq_self)

lemma mod64_2_even:
  assumes "- (2 ^ 63) \<le> k" "k < 2 ^ 63"
  shows "mod64 (word_of_int k) 2 = 0 \<longleftrightarrow> even k"
proof -
  have "\<bar>k\<bar> mod 2 < 2" by simp
  then have "\<bar>k\<bar> mod 2 \<le> 1" by linarith
  then have "\<bar>k smod 2\<bar> \<le> 1" by (simp add: signed_modulo_int_def abs_mult abs_sgn_eq)
  then have "sint (word_of_int (k smod 2) :: int64) = k smod 2"
    by (intro sint_word_of_int_range) simp_all
  then have "(word_of_int (k smod 2) :: int64) = 0 \<longleftrightarrow> k smod 2 = 0"
    by (metis signed_eq_0_iff)
  moreover have "k smod 2 = 0 \<longleftrightarrow> even k"
    by (auto simp: signed_modulo_int_def sgn_if even_iff_mod_2_eq_zero)
  ultimately show ?thesis using assms by (simp add: mod64_def sint_word_of_int_range)
qed

subsection \<open>The constants and products that the rounding examples go through\<close>

lemma lit_1_2: "lit (1 / 2) = Finite False (1 / 2)"
  by (simp add: lit_def mk_float_normal [where e = "- 1"] float_eval)

lemma lit_1e_5: "lit (1 / 100000) = Finite False (5902958103587057 / 590295810358705651712)"
  by (simp add: lit_def mk_float_normal [where e = "- 17"] float_eval)

lemma lit_1: "lit 1 = Finite False 1"
  by (simp add: lit_def mk_float_normal [where e = 0] float_eval)

lemma lit_100: "lit 100 = Finite False 100"
  by (simp add: lit_def mk_float_normal [where e = 6] float_eval)

lemma Pow10_0: "Pow10 0 = Finite False 1"
  by (simp add: Pow10_def lit_1 mk_float_normal [where e = 0] float_eval)

lemma Pow10_2: "Pow10 2 = Finite False 100"
  by (simp add: Pow10_def lit_1 lit_100 mk_float_normal [where e = 6] float_eval)

lemma lit_3_2: "lit (3 / 2) = Finite False (3 / 2)"
  by (simp add: lit_def mk_float_normal [where e = 0] float_eval)

lemma lit_5_2: "lit (5 / 2) = Finite False (5 / 2)"
  by (simp add: lit_def mk_float_normal [where e = 1] float_eval)

lemma lit_7_5: "lit (7 / 5) = Finite False (3152519739159347 / 2251799813685248)"
  by (simp add: lit_def mk_float_normal [where e = 0] float_eval)

lemma lit_8_5: "lit (8 / 5) = Finite False (3602879701896397 / 2251799813685248)"
  by (simp add: lit_def mk_float_normal [where e = 0] float_eval)

lemma lit_19_10: "lit (19 / 10) = Finite False (4278419646001971 / 2251799813685248)"
  by (simp add: lit_def mk_float_normal [where e = 0] float_eval)

lemma lit_11_10: "lit (11 / 10) = Finite False (2476979795053773 / 2251799813685248)"
  by (simp add: lit_def mk_float_normal [where e = 0] float_eval)

lemma scaled_3_2: "fmul (lit (3 / 2)) (Pow10 2) = Finite False 150"
  by (simp add: lit_3_2 Pow10_2 mk_float_normal [where e = 7] float_eval)

lemma scaled_5_2: "fmul (lit (5 / 2)) (Pow10 2) = Finite False 250"
  by (simp add: lit_5_2 Pow10_2 mk_float_normal [where e = 7] float_eval)

lemma scaled_7_5: "fmul (lit (7 / 5)) (Pow10 2) = Finite False 140"
  by (simp add: lit_7_5 Pow10_2 mk_float_normal [where e = 7] float_eval)

lemma scaled_8_5: "fmul (lit (8 / 5)) (Pow10 2) = Finite False 160"
  by (simp add: lit_8_5 Pow10_2 mk_float_normal [where e = 7] float_eval)

lemma scaled_19_10: "fmul (lit (19 / 10)) (Pow10 2) = Finite False 190"
  by (simp add: lit_19_10 Pow10_2 mk_float_normal [where e = 7] float_eval)

lemma scaled_11_10:
  "fmul (lit (11 / 10)) (Pow10 2) = Finite False (7740561859543041 / 70368744177664)"
  by (simp add: lit_11_10 Pow10_2 mk_float_normal [where e = 6] float_eval)

lemma half_down_8_5:
  "fsub (fadd (Finite False 160) (lit (1 / 2))) (lit (1 / 100000))
     = Finite False (5647091368413815 / 35184372088832)"
  by (simp add: lit_1_2 lit_1e_5 fsub_def fval_def mk_float_normal [where e = 7] float_eval)

lemma lit_m5_2: "lit (- (5 / 2)) = Finite True (5 / 2)"
  by (simp add: lit_def mk_float_normal [where e = 1] float_eval)

lemma lit_m7_2: "lit (- (7 / 2)) = Finite True (7 / 2)"
  by (simp add: lit_def mk_float_normal [where e = 1] float_eval)

lemma lit_7_2: "lit (7 / 2) = Finite False (7 / 2)"
  by (simp add: lit_def mk_float_normal [where e = 1] float_eval)

lemma rescaled_150: "fmul (Finite False 150) (Pow10 2) = Finite False 15000"
  by (simp add: Pow10_2 mk_float_normal [where e = 13] float_eval)

lemma int64_Pow10_2: "int64_of_float64 oor (Pow10 2) = 100"
  by (simp add: Pow10_2)

text \<open>The powers of ten that fit an \<^verbatim>\<open>int64\<close>.\<close>

lemma Pow10_1: "Pow10 1 = Finite False 10"
  by (simp add: Pow10_def lit_def mk_float_normal [where e = 0]
      mk_float_normal [where e = 3] float_eval)

lemma Pow10_3: "Pow10 3 = Finite False 1000"
  by (simp add: Pow10_def lit_def mk_float_normal [where e = 0]
      mk_float_normal [where e = 9] float_eval)

lemma Pow10_4: "Pow10 4 = Finite False 10000"
  by (simp add: Pow10_def lit_def mk_float_normal [where e = 0]
      mk_float_normal [where e = 13] float_eval)

lemma Pow10_5: "Pow10 5 = Finite False 100000"
  by (simp add: Pow10_def lit_def mk_float_normal [where e = 0]
      mk_float_normal [where e = 16] float_eval)

lemma Pow10_6: "Pow10 6 = Finite False 1000000"
  by (simp add: Pow10_def lit_def mk_float_normal [where e = 0]
      mk_float_normal [where e = 19] float_eval)

lemma Pow10_7: "Pow10 7 = Finite False 10000000"
  by (simp add: Pow10_def lit_def mk_float_normal [where e = 0]
      mk_float_normal [where e = 23] float_eval)

lemma Pow10_8: "Pow10 8 = Finite False 100000000"
  by (simp add: Pow10_def lit_def mk_float_normal [where e = 0]
      mk_float_normal [where e = 26] float_eval)

lemma Pow10_9: "Pow10 9 = Finite False 1000000000"
  by (simp add: Pow10_def lit_def mk_float_normal [where e = 0]
      mk_float_normal [where e = 29] float_eval)

lemma Pow10_10: "Pow10 10 = Finite False 10000000000"
  by (simp add: Pow10_def lit_def mk_float_normal [where e = 0]
      mk_float_normal [where e = 33] float_eval)

lemma Pow10_11: "Pow10 11 = Finite False 100000000000"
  by (simp add: Pow10_def lit_def mk_float_normal [where e = 0]
      mk_float_normal [where e = 36] float_eval)

lemma Pow10_12: "Pow10 12 = Finite False 1000000000000"
  by (simp add: Pow10_def lit_def mk_float_normal [where e = 0]
      mk_float_normal [where e = 39] float_eval)

lemma Pow10_13: "Pow10 13 = Finite False 10000000000000"
  by (simp add: Pow10_def lit_def mk_float_normal [where e = 0]
      mk_float_normal [where e = 43] float_eval)

lemma Pow10_14: "Pow10 14 = Finite False 100000000000000"
  by (simp add: Pow10_def lit_def mk_float_normal [where e = 0]
      mk_float_normal [where e = 46] float_eval)

lemma Pow10_15: "Pow10 15 = Finite False 1000000000000000"
  by (simp add: Pow10_def lit_def mk_float_normal [where e = 0]
      mk_float_normal [where e = 49] float_eval)

lemma Pow10_16: "Pow10 16 = Finite False 10000000000000000"
  by (simp add: Pow10_def lit_def mk_float_normal [where e = 0]
      mk_float_normal [where e = 53] float_eval)

lemma Pow10_17: "Pow10 17 = Finite False 100000000000000000"
  by (simp add: Pow10_def lit_def mk_float_normal [where e = 0]
      mk_float_normal [where e = 56] float_eval)

lemma Pow10_18: "Pow10 18 = Finite False 1000000000000000000"
  by (simp add: Pow10_def lit_def mk_float_normal [where e = 0]
      mk_float_normal [where e = 59] float_eval)

lemma int64_Pow10:
  assumes "0 \<le> s" "s \<le> 18"
  shows "int64_of_float64 oor (Pow10 s) = 10 ^ nat s"
proof -
  from assms have
    "s = 0 \<or> s = 1 \<or> s = 2 \<or> s = 3 \<or> s = 4 \<or> s = 5 \<or> s = 6 \<or>
     s = 7 \<or> s = 8 \<or> s = 9 \<or> s = 10 \<or> s = 11 \<or> s = 12 \<or>
     s = 13 \<or> s = 14 \<or> s = 15 \<or> s = 16 \<or> s = 17 \<or> s = 18"
    by arith
  then show ?thesis
    by (elim disjE)
      (simp_all add:
        Pow10_0 Pow10_1 Pow10_2 Pow10_3 Pow10_4 Pow10_5 Pow10_6 Pow10_7 Pow10_8 Pow10_9
        Pow10_10 Pow10_11 Pow10_12 Pow10_13 Pow10_14 Pow10_15 Pow10_16 Pow10_17 Pow10_18)
qed

lemma scaled_1234_56:
  "fmul (Finite False (2714826150374277 / 2199023255552)) (Pow10 2) = Finite False 123456"
  by (simp add: Pow10_2 mk_float_normal [where e = 16] float_eval)

lemma rescaled_123456: "fmul (Finite False 123456) (Pow10 2) = Finite False 12345600"
  by (simp add: Pow10_2 mk_float_normal [where e = 23] float_eval)

section \<open>The rounding engine on the documented examples\<close>

text \<open>
  Claim C4. In binary64 arithmetic \<^verbatim>\<open>round\<close> gives: 1.5 at scale 2 under HalfUp is 150;
  1.4 under HalfUp is 140; 1.6 under HalfDown is 160; 2.5 under HalfEven is 250; 1.5 under
  HalfEven is 150; 1.9 under Down is 190; and 1.1 under Up is 111, because the product of
  the \<^verbatim>\<open>float64\<close> nearest to 1.1 and 100 is the \<^verbatim>\<open>float64\<close> just above 110
  (\<open>110 + 2^-46\<close>, printed as 110.00000000000001), whose ceiling is 111. None of the
  conversions is out of range, so the results do not depend on \<open>oor\<close>.
\<close>

theorem round_literals:
  "round_money oor (lit (15 / 10)) 2 RoundHalfUp = 150
   \<and> round_money oor (lit (14 / 10)) 2 RoundHalfUp = 140
   \<and> round_money oor (lit (16 / 10)) 2 RoundHalfDown = 160
   \<and> round_money oor (lit (25 / 10)) 2 RoundHalfEven = 250
   \<and> round_money oor (lit (15 / 10)) 2 RoundHalfEven = 150
   \<and> round_money oor (lit (19 / 10)) 2 RoundDown = 190
   \<and> round_money oor (lit (11 / 10)) 2 RoundUp = 111
   \<and> fmul (lit (11 / 10)) (Pow10 2) = Finite False (110 + 1 / 2 ^ 46)"
proof -
  have "round_money oor (lit (3 / 2)) 2 RoundHalfUp = 150"
    by (simp add: scaled_3_2 floor_rat_numeral)
  moreover have "round_money oor (lit (7 / 5)) 2 RoundHalfUp = 140"
    by (simp add: scaled_7_5 floor_rat_numeral)
  moreover have "round_money oor (lit (8 / 5)) 2 RoundHalfDown = 160"
    by (simp add: scaled_8_5 half_down_8_5 floor_rat_numeral)
  moreover have "round_money oor (lit (5 / 2)) 2 RoundHalfEven = 250"
    by (simp add: scaled_5_2 lit_1_2 fval_def floor_rat_numeral)
  moreover have "round_money oor (lit (3 / 2)) 2 RoundHalfEven = 150"
    by (simp add: scaled_3_2 lit_1_2 fval_def floor_rat_numeral)
  moreover have "round_money oor (lit (19 / 10)) 2 RoundDown = 190"
    by (simp add: scaled_19_10 fval_def whole_def floor_rat_numeral)
  moreover have "round_money oor (lit (11 / 10)) 2 RoundUp = 111"
    by (simp add: scaled_11_10 fval_def whole_def ceiling_rat_numeral)
  moreover have "fmul (lit (11 / 10)) (Pow10 2) = Finite False (110 + 1 / 2 ^ 46)"
    by (simp add: scaled_11_10)
  ultimately show ?thesis by simp
qed

section \<open>Banker's rounding\<close>

text \<open>Off a tie, \<^verbatim>\<open>RoundHalfEven\<close> is \<^verbatim>\<open>RoundHalfUp\<close>.\<close>

lemma HalfEven_off_tie:
  assumes "\<not> feq (Abs (snd (Modf (fmul v (Pow10 s))))) (lit (1 / 2))"
  shows "round_money oor v s RoundHalfEven = round_money oor v s RoundHalfUp"
  using assms by (simp add: Let_def)

text \<open>
  On a tie \<open>k + 1/2\<close> the result is the even neighbour when the scaled value is positive,
  and the odd neighbour when it is negative.
\<close>

lemma HalfEven_tie:
  assumes "fmul v (Pow10 s) = Finite neg (of_int k + 1 / 2)" "0 \<le> k" "k < 2 ^ 62"
  shows "round_money oor v s RoundHalfEven =
     word_of_int (if neg then (if even k then - k - 1 else - k)
                  else (if even k then k else k + 1))"
proof -
  define q :: rat where "q = of_int k + 1 / 2"
  have fl: "\<lfloor>q\<rfloor> = k" "\<lfloor>- q\<rfloor> = - k - 1"
    by (rule floor_unique; simp add: q_def)+
  have ce: "\<lceil>q\<rceil> = k + 1" "\<lceil>- q\<rceil> = - k"
    by (rule ceiling_unique; simp add: q_def)+
  have sc: "fmul v (Pow10 s) = Finite neg q" using assms(1) by (simp only: q_def)
  have "q - of_int \<lfloor>q\<rfloor> = 1 / 2" by (simp only: fl) (simp add: q_def)
  then have tie: "feq (Abs (snd (Modf (Finite neg q)))) (lit (1 / 2))"
    by (simp add: lit_1_2 fval_def)
  have rng: "- (2 ^ 63) \<le> k" "k < 2 ^ 63" "- (2 ^ 63) \<le> - k" "- k < 2 ^ 63"
    using assms by simp_all
  have trunc: "int64_of_float64 oor (Finite neg q) = word_of_int (if neg then - k else k)"
    using assms by (simp add: fl)
  have par: "mod64 (word_of_int (if neg then - k else k)) 2 = 0 \<longleftrightarrow> even k"
    using rng by (simp add: mod64_2_even)
  have "Floor (Finite neg q) = whole neg (if neg then - k - 1 else k)"
    by (simp add: fval_def fl)
  then have flo: "int64_of_float64 oor (Floor (Finite neg q))
      = word_of_int (if neg then - k - 1 else k)"
    using assms by (simp add: whole_def)
  have "Ceil (Finite neg q) = whole neg (if neg then - k else k + 1)"
    by (simp add: fval_def ce)
  then have cei: "int64_of_float64 oor (Ceil (Finite neg q))
      = word_of_int (if neg then - k else k + 1)"
    using assms by (simp add: whole_def)
  have "round_money oor v s RoundHalfEven =
      (if even k then int64_of_float64 oor (Floor (Finite neg q))
       else int64_of_float64 oor (Ceil (Finite neg q)))"
    using tie par by (simp only: round_money.simps sc Let_def trunc if_True)
  then show ?thesis by (simp only: flo cei) simp
qed

text \<open>
  Claim C5 asks that a tie of \<^verbatim>\<open>RoundHalfEven\<close> goes to the even neighbour, for negative
  values as for positive ones. The code decides by the parity of the truncated value and
  then takes the floor when it is even and the ceiling when it is odd. Below zero the
  truncated value is the upper neighbour, so the floor of an even one and the ceiling of an
  odd one are both odd: -2.5 and -3.5 (scale 0) both give -3, where the even neighbours are
  -2 and -4. The positive ties 2.5 and 3.5 give 2 and 4.
\<close>

theorem HalfEven_negative_ties:
  "round_money oor (lit (- 25 / 10)) 0 RoundHalfEven = - 3
   \<and> round_money oor (lit (- 35 / 10)) 0 RoundHalfEven = - 3
   \<and> round_money oor (lit (25 / 10)) 0 RoundHalfEven = 2
   \<and> round_money oor (lit (35 / 10)) 0 RoundHalfEven = 4"
proof -
  have "round_money oor (lit (- (5 / 2))) 0 RoundHalfEven = - 3"
    by (simp add: lit_m5_2 Pow10_0 lit_1_2 mk_float_normal [where e = 1] float_eval
        fval_def whole_def mod64_def)
  moreover have "round_money oor (lit (- (7 / 2))) 0 RoundHalfEven = - 3"
    by (simp add: lit_m7_2 Pow10_0 lit_1_2 mk_float_normal [where e = 1] float_eval
        fval_def whole_def mod64_def)
  moreover have "round_money oor (lit (5 / 2)) 0 RoundHalfEven = 2"
    by (simp add: lit_5_2 Pow10_0 lit_1_2 mk_float_normal [where e = 1] float_eval
        fval_def whole_def mod64_def)
  moreover have "round_money oor (lit (7 / 2)) 0 RoundHalfEven = 4"
    by (simp add: lit_7_2 Pow10_0 lit_1_2 mk_float_normal [where e = 1] float_eval
        fval_def whole_def mod64_def)
  ultimately show ?thesis by simp
qed

section \<open>Construction from a decimal amount\<close>

lemma ToUpper_USD: "ToUpper ''USD'' = ''USD''"
  by (simp add: ToUpper_def upper_byte_def)

text \<open>
  Claim C1 asks that \<^verbatim>\<open>New\<close> applies the rounding engine once, to the decimal amount at the
  currency's scale. \<^verbatim>\<open>New\<close> multiplies the amount by \<open>10^scale\<close> and hands the product to
  \<^verbatim>\<open>round\<close>, which multiplies by \<open>10^scale\<close> again: for 1.5 US dollars under HalfUp the
  amount is 15000, where the rounding engine on 1.5 at scale 2 gives 150.
\<close>

theorem New_scales_twice:
  "New example_registry oor (lit (15 / 10)) ''USD'' RoundHalfUp
     = Inr \<lparr>amount = 15000, currency = ''USD'', scale = 2, divisor = 100\<rparr>
   \<and> round_money oor (lit (15 / 10)) 2 RoundHalfUp = 150"
proof -
  have "New example_registry oor (lit (3 / 2)) ''USD'' RoundHalfUp
     = Inr \<lparr>amount = 15000, currency = ''USD'', scale = 2, divisor = 100\<rparr>"
    by (simp add: New_def ToUpper_USD example_registry_def USD_def lit_3_2
        scaled_3_2 [unfolded lit_3_2] rescaled_150 int64_Pow10_2 floor_rat_numeral)
  moreover have "round_money oor (lit (3 / 2)) 2 RoundHalfUp = 150"
    by (simp add: scaled_3_2 floor_rat_numeral)
  ultimately show ?thesis by simp
qed

section \<open>Addition, subtraction and division\<close>

lemma NewFromSmallestUnit_registered:
  assumes "reg code = Some cur"
  shows "NewFromSmallestUnit reg oor cents code =
     Inr \<lparr>amount = cents, currency = code, scale = Scale cur,
          divisor = int64_of_float64 oor (Pow10 (Scale cur))\<rparr>"
  using assms by (simp add: NewFromSmallestUnit_def)

text \<open>
  A code that is not in the registry stops \<^verbatim>\<open>NewFromSmallestUnit\<close>, and with it the four
  arithmetic operations, with the invalid-currency error.
\<close>

lemma NewFromSmallestUnit_unregistered:
  assumes "reg code = None"
  shows "NewFromSmallestUnit reg oor cents code = Inl ErrInvalidCurrency"
  using assms by (simp add: NewFromSmallestUnit_def)

lemma Add_Subtract_unregistered:
  assumes "currency a = currency b" "reg (currency a) = None"
  shows "Add reg oor a b = Inl ErrInvalidCurrency"
    and "Subtract reg oor a b = Inl ErrInvalidCurrency"
  using assms by (simp_all add: Add_def Subtract_def NewFromSmallestUnit_unregistered)

lemma Divide_unregistered:
  assumes "reg (currency m) = None" "\<not> IsNaN dvs" "\<not> IsInf0 dvs"
  shows "Divide reg oor m dvs = Inl ErrInvalidCurrency"
  using assms by (simp add: Divide_def NewFromSmallestUnit_unregistered)

text \<open>
  Claim C6, as amended. \<^verbatim>\<open>Add\<close> and \<^verbatim>\<open>Subtract\<close> fail with the currency-mismatch error
  exactly when the two codes differ (and an error result carries no Money). When the codes
  are equal, for a Money of the registry, each returns the Money whose amount is the
  \<^verbatim>\<open>int64\<close> sum (difference) of the two amounts, with the shared code, the shared scale and
  the divisor of that scale. That amount is the sum (difference) of the two integers
  whenever this fits an \<^verbatim>\<open>int64\<close>; otherwise it wraps around, as Go's \<^verbatim>\<open>+\<close> and \<^verbatim>\<open>-\<close> do.
\<close>

theorem Add_Subtract_currency:
  "(Add reg oor a b = Inl ErrCannotDealWithDifferentCurrencies \<longleftrightarrow> currency a \<noteq> currency b)
   \<and> (Subtract reg oor a b = Inl ErrCannotDealWithDifferentCurrencies
        \<longleftrightarrow> currency a \<noteq> currency b)
   \<and> (currency a = currency b \<and> registered reg a \<longrightarrow>
        Add reg oor a b =
          Inr \<lparr>amount = amount a + amount b, currency = currency a, scale = scale a,
               divisor = int64_of_float64 oor (Pow10 (scale a))\<rparr>
        \<and> Subtract reg oor a b =
          Inr \<lparr>amount = amount a - amount b, currency = currency a, scale = scale a,
               divisor = int64_of_float64 oor (Pow10 (scale a))\<rparr>)
   \<and> (- (2 ^ 63) \<le> sint (amount a) + sint (amount b)
        \<and> sint (amount a) + sint (amount b) < 2 ^ 63 \<longrightarrow>
        sint (amount a + amount b) = sint (amount a) + sint (amount b))
   \<and> (- (2 ^ 63) \<le> sint (amount a) - sint (amount b)
        \<and> sint (amount a) - sint (amount b) < 2 ^ 63 \<longrightarrow>
        sint (amount a - amount b) = sint (amount a) - sint (amount b))"
proof (intro conjI impI)
  show "Add reg oor a b = Inl ErrCannotDealWithDifferentCurrencies \<longleftrightarrow> currency a \<noteq> currency b"
    by (auto simp: Add_def NewFromSmallestUnit_def split: option.splits)
  show "Subtract reg oor a b = Inl ErrCannotDealWithDifferentCurrencies
          \<longleftrightarrow> currency a \<noteq> currency b"
    by (auto simp: Subtract_def NewFromSmallestUnit_def split: option.splits)
next
  assume h: "currency a = currency b \<and> registered reg a"
  then obtain cur where cur: "reg (currency a) = Some cur" "Scale cur = scale a"
    by (auto simp: registered_def split: option.splits)
  show "Add reg oor a b =
          Inr \<lparr>amount = amount a + amount b, currency = currency a, scale = scale a,
               divisor = int64_of_float64 oor (Pow10 (scale a))\<rparr>"
    using h cur by (simp add: Add_def NewFromSmallestUnit_registered)
  show "Subtract reg oor a b =
          Inr \<lparr>amount = amount a - amount b, currency = currency a, scale = scale a,
               divisor = int64_of_float64 oor (Pow10 (scale a))\<rparr>"
    using h cur by (simp add: Subtract_def NewFromSmallestUnit_registered)
next
  assume "- (2 ^ 63) \<le> sint (amount a) + sint (amount b)
    \<and> sint (amount a) + sint (amount b) < 2 ^ 63"
  then show "sint (amount a + amount b) = sint (amount a) + sint (amount b)"
    by (intro int64_add_exact) simp_all
next
  assume "- (2 ^ 63) \<le> sint (amount a) - sint (amount b)
    \<and> sint (amount a) - sint (amount b) < 2 ^ 63"
  then show "sint (amount a - amount b) = sint (amount a) - sint (amount b)"
    by (intro int64_sub_exact) simp_all
qed

text \<open>
  The theorem at 1.00 and 2.00 US dollars, and at 1.00 US dollar against 2.00 euros: the
  dollar is registered, the sum 300 and the difference -100 fit an \<^verbatim>\<open>int64\<close> and are the
  amounts of the results; with the euro both operations fail.
\<close>

theorem Add_Subtract_currency_witness:
  "registered example_registry \<lparr>amount = 100, currency = ''USD'', scale = 2, divisor = 100\<rparr>
   \<and> - (2 ^ 63) \<le> sint (100 :: int64) + sint (200 :: int64)
   \<and> sint (100 :: int64) + sint (200 :: int64) < 2 ^ 63
   \<and> - (2 ^ 63) \<le> sint (100 :: int64) - sint (200 :: int64)
   \<and> sint (100 :: int64) - sint (200 :: int64) < 2 ^ 63
   \<and> Add example_registry oor_amd64
        \<lparr>amount = 100, currency = ''USD'', scale = 2, divisor = 100\<rparr>
        \<lparr>amount = 200, currency = ''USD'', scale = 2, divisor = 100\<rparr>
       = Inr \<lparr>amount = 300, currency = ''USD'', scale = 2, divisor = 100\<rparr>
   \<and> sint (100 + 200 :: int64) = 300
   \<and> Subtract example_registry oor_amd64
        \<lparr>amount = 100, currency = ''USD'', scale = 2, divisor = 100\<rparr>
        \<lparr>amount = 200, currency = ''USD'', scale = 2, divisor = 100\<rparr>
       = Inr \<lparr>amount = - 100, currency = ''USD'', scale = 2, divisor = 100\<rparr>
   \<and> sint (100 - 200 :: int64) = - 100
   \<and> Add example_registry oor_amd64
        \<lparr>amount = 100, currency = ''USD'', scale = 2, divisor = 100\<rparr>
        \<lparr>amount = 200, currency = ''EUR'', scale = 2, divisor = 100\<rparr>
       = Inl ErrCannotDealWithDifferentCurrencies
   \<and> Subtract example_registry oor_amd64
        \<lparr>amount = 100, currency = ''USD'', scale = 2, divisor = 100\<rparr>
        \<lparr>amount = 200, currency = ''EUR'', scale = 2, divisor = 100\<rparr>
       = Inl ErrCannotDealWithDifferentCurrencies"
proof -
  have r: "registered example_registry
      \<lparr>amount = 100, currency = ''USD'', scale = 2, divisor = 100\<rparr>"
    by (simp add: registered_def example_registry_def USD_def)
  then show ?thesis
    using
      Add_Subtract_currency [of example_registry oor_amd64
        "\<lparr>amount = 100, currency = ''USD'', scale = 2, divisor = 100\<rparr>"
        "\<lparr>amount = 200, currency = ''USD'', scale = 2, divisor = 100\<rparr>"]
      Add_Subtract_currency [of example_registry oor_amd64
        "\<lparr>amount = 100, currency = ''USD'', scale = 2, divisor = 100\<rparr>"
        "\<lparr>amount = 200, currency = ''EUR'', scale = 2, divisor = 100\<rparr>"]
    by (simp add: int64_Pow10_2)
qed

text \<open>
  The claim as first worded, that the amount is exactly the sum for all Money values,
  fails where the sum leaves the \<^verbatim>\<open>int64\<close> range: both 9223372036854775807 and 1 smallest
  units of US dollars are what \<^verbatim>\<open>NewFromSmallestUnit\<close> returns, and their sum by \<^verbatim>\<open>Add\<close> has
  the amount -9223372036854775808, where the sum of the integers is 9223372036854775808.
  It also fails for two Moneys of one code that the registry does not have: they are not
  added, the result is the invalid-currency error.
\<close>

theorem Add_exact_sum_counterexample:
  "NewFromSmallestUnit example_registry oor_amd64 9223372036854775807 ''USD''
     = Inr \<lparr>amount = 9223372036854775807, currency = ''USD'', scale = 2, divisor = 100\<rparr>
   \<and> NewFromSmallestUnit example_registry oor_amd64 1 ''USD''
     = Inr \<lparr>amount = 1, currency = ''USD'', scale = 2, divisor = 100\<rparr>
   \<and> Add example_registry oor_amd64
        \<lparr>amount = 9223372036854775807, currency = ''USD'', scale = 2, divisor = 100\<rparr>
        \<lparr>amount = 1, currency = ''USD'', scale = 2, divisor = 100\<rparr>
       = Inr \<lparr>amount = - 9223372036854775808, currency = ''USD'', scale = 2, divisor = 100\<rparr>
   \<and> sint (- 9223372036854775808 :: int64)
       \<noteq> sint (9223372036854775807 :: int64) + sint (1 :: int64)
   \<and> Add example_registry oor_amd64
        \<lparr>amount = 1, currency = ''XXX'', scale = 2, divisor = 100\<rparr>
        \<lparr>amount = 2, currency = ''XXX'', scale = 2, divisor = 100\<rparr>
       = Inl ErrInvalidCurrency"
  by (simp add: Add_def NewFromSmallestUnit_def example_registry_def USD_def int64_Pow10_2)



section \<open>Split\<close>

text \<open>
  What the loop returns: \<open>n - i\<close> parts, whose amounts add up to \<open>n - i\<close> times the quotient
  plus one for every index from \<open>i\<close> on that is below the remainder.
\<close>

lemma Split_loop_sum:
  assumes "0 \<le> i" "n < 2 ^ 63"
  shows "sum_list (map amount (Split_loop m b r n i))
           = word_of_int (max 0 (n - i)) * b + word_of_int (max 0 (min n (sint r) - i))
         \<and> int (length (Split_loop m b r n i)) = max 0 (n - i)"
  using assms
proof (induction m b r n i rule: Split_loop.induct)
  case (1 m b r n i)
  show ?case
  proof (cases "i < n")
    case False
    then have "Split_loop m b r n i = []" by (subst Split_loop.simps) simp
    then show ?thesis using False by simp
  next
    case True
    define k where "k = max 0 (n - (i + 1))"
    define j where "j = max 0 (min n (sint r) - (i + 1))"
    define rest where "rest = Split_loop m b r n (i + 1)"
    have si: "sint (word_of_int i :: int64) = i"
      using "1.prems" True by (intro sint_word_of_int_small) simp_all
    have unf: "Split_loop m b r n i =
        \<lparr>amount = (if i < sint r then b + 1 else b),
         currency = currency m, scale = scale m, divisor = 0\<rparr> # rest"
      using True by (subst Split_loop.simps) (simp add: si rest_def)
    have ih: "sum_list (map amount rest) = word_of_int k * b + word_of_int j"
      and ihl: "int (length rest) = k"
      using "1.IH" [OF True] "1.prems" by (simp_all add: k_def j_def rest_def)
    have m1: "max 0 (n - i) = k + 1" using True by (simp add: k_def)
    have m2: "max 0 (min n (sint r) - i) = (if i < sint r then j + 1 else j)"
      using True by (simp add: j_def)
    have "sum_list (map amount (Split_loop m b r n i))
        = (if i < sint r then b + 1 else b) + (word_of_int k * b + word_of_int j)"
      by (simp add: unf ih)
    also have "\<dots> = word_of_int (k + 1) * b + word_of_int (if i < sint r then j + 1 else j)"
      by (simp add: algebra_simps)
    finally have "sum_list (map amount (Split_loop m b r n i))
        = word_of_int (max 0 (n - i)) * b + word_of_int (max 0 (min n (sint r) - i))"
      by (simp only: m1 m2)
    moreover have "int (length (Split_loop m b r n i)) = max 0 (n - i)"
      by (simp add: unf ihl m1)
    ultimately show ?thesis by simp
  qed
qed

text \<open>
  \<^verbatim>\<open>Split\<close> returns \<open>n\<close> parts. Their amounts add up to the amount that was split when it
  is not negative; for a negative amount they add up to the amount less its (negative or
  zero) remainder, so the sum is right only when \<open>n\<close> divides the amount.
\<close>

lemma Split_sum:
  assumes "0 < n" "n < 2 ^ 63"
  shows "\<exists>ps. Split m n = Inr ps \<and> int (length ps) = n
           \<and> sum_list (map amount ps)
               = (if 0 \<le> sint (amount m) then amount m
                  else amount m - mod64 (amount m) (word_of_int n))"
proof -
  let ?a = "sint (amount m)"
  define b :: int64 where "b = div64 (amount m) (word_of_int n)"
  define r :: int64 where "r = mod64 (amount m) (word_of_int n)"
  have sn: "sint (word_of_int n :: int64) = n"
    using assms by (intro sint_word_of_int_small) simp_all
  have b: "b = word_of_int (?a sdiv n)" by (simp add: b_def div64_def sn)
  have r: "r = word_of_int (?a smod n)" by (simp add: r_def mod64_def sn)
  have "\<bar>?a smod n\<bar> < n"
    using assms by (simp add: signed_modulo_int_def abs_mult abs_sgn_eq)
  then have sr: "sint r = ?a smod n"
    unfolding r using assms(2) by (intro sint_word_of_int_range) simp_all
  have sgn_r: "0 \<le> ?a \<Longrightarrow> 0 \<le> ?a smod n" "?a < 0 \<Longrightarrow> ?a smod n \<le> 0"
    using assms by (simp_all add: signed_modulo_int_def sgn_if)
  have sp: "Split m n = Inr (Split_loop m b r n 0)"
    using assms by (simp add: Split_def b_def r_def Let_def)
  have loop: "sum_list (map amount (Split_loop m b r n 0))
      = word_of_int (max 0 (n - 0)) * b + word_of_int (max 0 (min n (sint r) - 0))"
    and len: "int (length (Split_loop m b r n 0)) = max 0 (n - 0)"
    using Split_loop_sum [of 0 n m b r] assms by simp_all
  have whole: "word_of_int (n * (?a sdiv n) + ?a smod n) = amount m"
    by (simp only: mult_sdiv_smod_eq) simp
  have "sum_list (map amount (Split_loop m b r n 0))
      = (if 0 \<le> ?a then amount m else amount m - r)"
  proof (cases "0 \<le> ?a")
    case True
    then have "max 0 (min n (sint r) - 0) = ?a smod n"
      using sgn_r \<open>\<bar>?a smod n\<bar> < n\<close> by (simp add: sr)
    then have "sum_list (map amount (Split_loop m b r n 0))
        = word_of_int n * b + word_of_int (?a smod n)"
      using loop assms by simp
    also have "\<dots> = word_of_int (n * (?a sdiv n) + ?a smod n)"
      by (simp only: b of_int_add of_int_mult)
    finally show ?thesis using True by (simp only: whole if_True)
  next
    case False
    then have "max 0 (min n (sint r) - 0) = 0"
      using sgn_r by (simp add: sr)
    then have "sum_list (map amount (Split_loop m b r n 0)) = word_of_int n * b"
      using loop assms by simp
    also have "\<dots> = word_of_int (n * (?a sdiv n) + ?a smod n) - r"
      by (simp only: b r of_int_add of_int_mult) simp
    finally show ?thesis using False by (simp only: whole if_False)
  qed
  then show ?thesis using sp len assms by (simp add: r_def)
qed

text \<open>
  Claim C2 asks that the amounts of the parts add up to the amount that was split, for
  negative amounts too. For -1.00 US dollar in 3 parts the quotient is -33 and the
  remainder -1 (Go's \<^verbatim>\<open>%\<close> takes the sign of the dividend); no index \<open>i \<ge> 0\<close> is below the
  remainder, so no part is adjusted: the parts are -33, -33, -33 and add up to -99.
\<close>

theorem Split_negative_amount:
  "Split \<lparr>amount = - 100, currency = ''USD'', scale = 2, divisor = 100\<rparr> 3
     = Inr [\<lparr>amount = - 33, currency = ''USD'', scale = 2, divisor = 0\<rparr>,
            \<lparr>amount = - 33, currency = ''USD'', scale = 2, divisor = 0\<rparr>,
            \<lparr>amount = - 33, currency = ''USD'', scale = 2, divisor = 0\<rparr>]
   \<and> sum_list (map amount
         [\<lparr>amount = - 33, currency = ''USD'', scale = 2, divisor = 0\<rparr>,
          \<lparr>amount = - 33, currency = ''USD'', scale = 2, divisor = 0\<rparr>,
          \<lparr>amount = - 33, currency = ''USD'', scale = 2, divisor = 0\<rparr>]) = - 99"
  by (simp add: Split_def div64_def mod64_def Split_loop.simps Let_def)

text \<open>The constructors and the arithmetic operations set the divisor to \<open>10^scale\<close>.\<close>

lemma NewFromSmallestUnit_divisor:
  assumes "scales_supported reg" "NewFromSmallestUnit reg oor cents code = Inr r"
  shows "divisor r = 10 ^ nat (scale r)"
  using assms
  by (auto simp: scales_supported_def NewFromSmallestUnit_def int64_Pow10 split: option.splits)

lemma New_divisor:
  assumes "scales_supported reg" "New reg oor amt code mode = Inr r"
  shows "divisor r = 10 ^ nat (scale r)"
  using assms
  by (auto simp: scales_supported_def New_def Let_def int64_Pow10 split: option.splits if_splits)

lemma arithmetic_divisor:
  assumes "scales_supported reg"
  shows "Add reg oor m other = Inr r \<Longrightarrow> divisor r = 10 ^ nat (scale r)"
    and "Subtract reg oor m other = Inr r \<Longrightarrow> divisor r = 10 ^ nat (scale r)"
    and "Multiply reg oor m factor mode = Inr r \<Longrightarrow> divisor r = 10 ^ nat (scale r)"
    and "Divide reg oor m dvs = Inr r \<Longrightarrow> divisor r = 10 ^ nat (scale r)"
  using assms NewFromSmallestUnit_divisor [of reg oor _ "currency m" r]
  by (auto simp: Add_def Subtract_def Multiply_def Divide_def Let_def
      split: if_splits sum.splits)

text \<open>
  Claim C3 asks that every Money an operation produces has \<open>divisor = 10^scale\<close>. The parts
  that \<^verbatim>\<open>Split\<close> returns are built by a struct literal that leaves \<^verbatim>\<open>divisor\<close> out: for 1.00 US
  dollar in 3 parts the amounts are 34, 33, 33 and every divisor is 0, where \<open>10^2 = 100\<close>.
\<close>

theorem Split_divisor_unset:
  "Split \<lparr>amount = 100, currency = ''USD'', scale = 2, divisor = 100\<rparr> 3
     = Inr [\<lparr>amount = 34, currency = ''USD'', scale = 2, divisor = 0\<rparr>,
            \<lparr>amount = 33, currency = ''USD'', scale = 2, divisor = 0\<rparr>,
            \<lparr>amount = 33, currency = ''USD'', scale = 2, divisor = 0\<rparr>]
   \<and> map divisor
         [\<lparr>amount = 34, currency = ''USD'', scale = 2, divisor = 0\<rparr>,
          \<lparr>amount = 33, currency = ''USD'', scale = 2, divisor = 0\<rparr>,
          \<lparr>amount = 33, currency = ''USD'', scale = 2, divisor = 0\<rparr>] = [0, 0, 0]
   \<and> (10 :: int64) ^ 2 = 100"
  by (simp add: Split_def div64_def mod64_def Split_loop.simps Let_def)

text \<open>The round trip holds for a Money of the registry that has the divisor of its scale.\<close>

lemma NewFromSmallestUnit_round_trip:
  assumes "registered reg m" "divisor m = int64_of_float64 oor (Pow10 (scale m))"
  shows "NewFromSmallestUnit reg oor (SmallestUnit m) (Currency_of m) = Inr m"
  using assms
  by (auto simp: registered_def NewFromSmallestUnit_def SmallestUnit_def Currency_of_def
      split: option.splits)

text \<open>
  Claim C9 asks that \<^verbatim>\<open>NewFromSmallestUnit\<close> on the amount and the code of a Money gives that
  Money back, also for the parts of \<^verbatim>\<open>Split\<close>. For a part of 1.00 US dollar split in 2 it
  gives the Money with divisor 100, and the part has divisor 0.
\<close>

theorem Split_part_round_trip:
  "Split \<lparr>amount = 100, currency = ''USD'', scale = 2, divisor = 100\<rparr> 2
     = Inr [\<lparr>amount = 50, currency = ''USD'', scale = 2, divisor = 0\<rparr>,
            \<lparr>amount = 50, currency = ''USD'', scale = 2, divisor = 0\<rparr>]
   \<and> NewFromSmallestUnit example_registry oor
         (SmallestUnit \<lparr>amount = 50, currency = ''USD'', scale = 2, divisor = 0\<rparr>)
         (Currency_of \<lparr>amount = 50, currency = ''USD'', scale = 2, divisor = 0\<rparr>)
       = Inr \<lparr>amount = 50, currency = ''USD'', scale = 2, divisor = 100\<rparr>
   \<and> \<lparr>amount = 50, currency = ''USD'', scale = 2, divisor = 100 :: int64\<rparr>
       \<noteq> \<lparr>amount = 50, currency = ''USD'', scale = 2, divisor = 0\<rparr>"
  by (simp add: Split_def div64_def mod64_def Split_loop.simps Let_def
      NewFromSmallestUnit_def SmallestUnit_def Currency_of_def example_registry_def USD_def
      int64_Pow10_2)

section \<open>Parse\<close>

lemma TrimSpace_example: "TrimSpace ''$1,234.56'' = ''$1,234.56''"
  by (simp add: TrimSpace_def strip_leading.simps lead_width_def white_space_def)

lemma TrimSpace_normalized: "TrimSpace ''1234.56'' = ''1234.56''"
  by (simp add: TrimSpace_def strip_leading.simps lead_width_def white_space_def)

lemma ReplaceAll_symbol: "ReplaceAll ''$1,234.56'' ''$'' [] = ''1,234.56''"
  by (simp add: ReplaceAll_def replace_nonempty.simps)

lemma ReplaceAll_thousands: "ReplaceAll ''1,234.56'' '','' [] = ''1234.56''"
  by (simp add: ReplaceAll_def replace_nonempty.simps)

lemma ReplaceAll_decimal: "ReplaceAll ''1234.56'' ''.'' ''.'' = ''1234.56''"
  by (simp add: ReplaceAll_def)

lemma MatchString_example: "MatchString numberRegex ''1234.56''"
  by (simp add: numberRegex_def is_digit_def)

lemma ParseFloat_example:
  "ParseFloat ''1234.56'' = Inr (Finite False (2714826150374277 / 2199023255552))"
  by (simp add: ParseFloat_def is_digit_def digits_val_def
      mk_float_normal [where e = 10] float_eval)

lemma New_1234_56:
  "New example_registry oor (Finite False (2714826150374277 / 2199023255552)) ''USD'' RoundHalfUp
     = Inr \<lparr>amount = 12345600, currency = ''USD'', scale = 2, divisor = 100\<rparr>"
  by (simp add: New_def ToUpper_USD example_registry_def USD_def scaled_1234_56
      rescaled_123456 int64_Pow10_2 floor_rat_numeral)

lemma TrimSpace_invalid: "TrimSpace ''invalid'' = ''invalid''"
  by (simp add: TrimSpace_def strip_leading.simps lead_width_def white_space_def)

lemma TrimSpace_invalid_dotted: "TrimSpace ''.i.n.v.a.l.i.d.'' = ''.i.n.v.a.l.i.d.''"
  by (simp add: TrimSpace_def strip_leading.simps lead_width_def white_space_def)

lemma ReplaceAll_invalid_dotted: "ReplaceAll ''invalid'' [] ''.'' = ''.i.n.v.a.l.i.d.''"
  by (simp add: ReplaceAll_def replace_empty.simps rune_width_def)

lemma ReplaceAll_invalid_same: "ReplaceAll ''invalid'' [] [] = ''invalid''"
  by (simp add: ReplaceAll_def)

lemma MatchString_invalid_dotted: "\<not> MatchString numberRegex ''.i.n.v.a.l.i.d.''"
  by (simp add: numberRegex_def is_digit_def)

text \<open>The second case of the package's parsing test: a currency without a default format.\<close>

lemma Parse_invalid:
  "Parse reg oor ''invalid''
     \<lparr>Code = ''USD'', Scale = 2,
      DefaultFormat = \<lparr>Symbol = [], DecimalSep = [], ThousandsSep = [],
        SymbolFirst = False, ShowCurrency = False, SpaceBetween = False\<rparr>\<rparr> mode
   = Inl ErrParseAmount"
  by (simp add: Parse_def TrimSpace_invalid TrimSpace_invalid_dotted ReplaceAll_invalid_dotted
      ReplaceAll_invalid_same MatchString_invalid_dotted del: MatchString.simps)

text \<open>The same input with the default format of the US dollar.\<close>

lemma ReplaceAll_invalid_symbol: "ReplaceAll ''invalid'' ''$'' [] = ''invalid''"
  by (simp add: ReplaceAll_def replace_nonempty.simps)

lemma ReplaceAll_invalid_thousands: "ReplaceAll ''invalid'' '','' [] = ''invalid''"
  by (simp add: ReplaceAll_def replace_nonempty.simps)

lemma ReplaceAll_invalid_decimal: "ReplaceAll ''invalid'' ''.'' ''.'' = ''invalid''"
  by (simp add: ReplaceAll_def)

lemma MatchString_invalid: "\<not> MatchString numberRegex ''invalid''"
  by (simp add: numberRegex_def is_digit_def)

lemma Parse_invalid_USD: "Parse reg oor ''invalid'' USD mode = Inl ErrParseAmount"
  by (simp add: Parse_def USD_def TrimSpace_invalid ReplaceAll_invalid_symbol
      ReplaceAll_invalid_thousands ReplaceAll_invalid_decimal MatchString_invalid
      del: MatchString.simps)

subsection \<open>The pattern and the grammar\<close>

text \<open>The matcher decides membership in the language of the expression.\<close>

lemma nil_in_conc: "[] \<in> conc A B \<longleftrightarrow> [] \<in> A \<and> [] \<in> B"
  by (auto simp: conc_def)

lemma cons_in_conc:
  "c # w \<in> conc A B \<longleftrightarrow>
     ([] \<in> A \<and> c # w \<in> B) \<or> (\<exists>u v. w = u @ v \<and> c # u \<in> A \<and> v \<in> B)"
  by (auto simp: conc_def Cons_eq_append_conv)

lemma cons_in_star:
  "c # w \<in> star A \<longleftrightarrow> (\<exists>u v. w = u @ v \<and> c # u \<in> A \<and> v \<in> star A)"
proof
  assume "c # w \<in> star A"
  then show "\<exists>u v. w = u @ v \<and> c # u \<in> A \<and> v \<in> star A"
  proof (induction "c # w" arbitrary: w rule: star.induct)
    case (star_app u v)
    then show ?case by (cases u) auto
  qed
next
  assume "\<exists>u v. w = u @ v \<and> c # u \<in> A \<and> v \<in> star A"
  then obtain u v where "w = u @ v" "c # u \<in> A" "v \<in> star A" by blast
  then show "c # w \<in> star A" using star_app [of "c # u" A v] by simp
qed

lemma nullable_lang: "nullable r \<longleftrightarrow> [] \<in> lang r"
  by (induction r) (auto simp: nil_in_conc intro: star_nil)

lemma deriv_lang: "w \<in> lang (deriv c r) \<longleftrightarrow> c # w \<in> lang r"
proof (induction r arbitrary: w)
  case (RStar r)
  then show ?case by (auto simp: cons_in_star conc_def)
next
  case (RPlus r)
  have "w \<in> lang (deriv c (RPlus r))
      \<longleftrightarrow> (\<exists>u v. w = u @ v \<and> c # u \<in> lang r \<and> v \<in> star (lang r))"
    using RPlus by (auto simp: conc_def)
  also have "\<dots> \<longleftrightarrow> c # w \<in> conc (lang r) (star (lang r))"
    unfolding cons_in_conc using cons_in_star [of c w "lang r"] by blast
  finally show ?case by simp
next
  case (RSeq r1 r2)
  have D: "w \<in> conc (lang (deriv c r1)) (lang r2)
      \<longleftrightarrow> (\<exists>u v. w = u @ v \<and> c # u \<in> lang r1 \<and> v \<in> lang r2)"
    using RSeq(1) by (auto simp: conc_def)
  show ?case
  proof (cases "nullable r1")
    case True
    then have "[] \<in> lang r1" by (simp add: nullable_lang)
    then show ?thesis using True D RSeq(2) by (simp add: cons_in_conc) blast
  next
    case False
    then have "[] \<notin> lang r1" by (simp add: nullable_lang)
    then show ?thesis using False D by (simp add: cons_in_conc)
  qed
qed auto

lemma MatchString_lang: "MatchString r s \<longleftrightarrow> s \<in> lang r"
  by (induction s arbitrary: r) (simp_all add: nullable_lang deriv_lang)

lemma star_digits: "w \<in> star {[c] | c. is_digit c} \<longleftrightarrow> list_all is_digit w"
proof
  assume "w \<in> star {[c] | c. is_digit c}"
  then show "list_all is_digit w" by (induction rule: star.induct) auto
next
  assume "list_all is_digit w"
  then show "w \<in> star {[c] | c. is_digit c}"
  proof (induction w)
    case Nil
    show ?case by (rule star_nil)
  next
    case (Cons c w)
    then have "[c] \<in> {[c] | c. is_digit c}" "w \<in> star {[c] | c. is_digit c}" by auto
    then have "[c] @ w \<in> star {[c] | c. is_digit c}" by (rule star_app)
    then show ?case by simp
  qed
qed

lemma in_conc: "s \<in> conc A B \<longleftrightarrow> (\<exists>u v. s = u @ v \<and> u \<in> A \<and> v \<in> B)"
  by (auto simp: conc_def)

lemma lang_RSeq: "s \<in> lang (RSeq r1 r2) \<longleftrightarrow> (\<exists>u v. s = u @ v \<and> u \<in> lang r1 \<and> v \<in> lang r2)"
  by (simp add: in_conc)

lemma lang_sign: "sg \<in> lang (ROpt (RChr CHR ''-'')) \<longleftrightarrow> sg = [] \<or> sg = ''-''"
  by auto

lemma lang_point: "pt \<in> lang (ROpt (RChr CHR ''.'')) \<longleftrightarrow> pt = [] \<or> pt = ''.''"
  by auto

lemma lang_digits: "ip \<in> lang (RStar RDigit) \<longleftrightarrow> list_all is_digit ip"
  by (simp add: star_digits)

lemma lang_digits1:
  "fp \<in> lang (RPlus RDigit) \<longleftrightarrow> (\<exists>d ds. fp = d # ds \<and> is_digit d \<and> list_all is_digit ds)"
proof
  assume "fp \<in> lang (RPlus RDigit)"
  then show "\<exists>d ds. fp = d # ds \<and> is_digit d \<and> list_all is_digit ds"
    by (auto simp: in_conc star_digits)
next
  assume "\<exists>d ds. fp = d # ds \<and> is_digit d \<and> list_all is_digit ds"
  then obtain d ds where "fp = [d] @ ds" "is_digit d" "list_all is_digit ds" by auto
  then show "fp \<in> lang (RPlus RDigit)"
    unfolding lang.simps in_conc star_digits by blast
qed

lemma lang_numberRegex:
  "s \<in> lang numberRegex \<longleftrightarrow>
     (\<exists>sg ip pt d ds. s = sg @ ip @ pt @ d # ds \<and> (sg = [] \<or> sg = ''-'')
        \<and> list_all is_digit ip \<and> (pt = [] \<or> pt = ''.'') \<and> is_digit d \<and> list_all is_digit ds)"
  (is "?L \<longleftrightarrow> ?R")
proof
  assume ?L
  then have "s \<in> lang (RSeq (ROpt (RChr CHR ''-''))
      (RSeq (RStar RDigit) (RSeq (ROpt (RChr CHR ''.'')) (RPlus RDigit))))"
    by (simp only: numberRegex_def)
  from lang_RSeq [THEN iffD1, OF this] obtain sg r1 where 1: "s = sg @ r1"
    "sg \<in> lang (ROpt (RChr CHR ''-''))"
    "r1 \<in> lang (RSeq (RStar RDigit) (RSeq (ROpt (RChr CHR ''.'')) (RPlus RDigit)))"
    by blast
  from lang_RSeq [THEN iffD1, OF 1(3)] obtain ip r2 where 2: "r1 = ip @ r2"
    "ip \<in> lang (RStar RDigit)" "r2 \<in> lang (RSeq (ROpt (RChr CHR ''.'')) (RPlus RDigit))"
    by blast
  from lang_RSeq [THEN iffD1, OF 2(3)] obtain pt r3 where 3: "r2 = pt @ r3"
    "pt \<in> lang (ROpt (RChr CHR ''.''))" "r3 \<in> lang (RPlus RDigit)"
    by blast
  from 3(3) obtain d ds where 4: "r3 = d # ds" "is_digit d" "list_all is_digit ds"
    unfolding lang_digits1 by blast
  show ?R
    using 1(1,2) 2(1,2) 3(1,2) 4 unfolding lang_sign lang_point lang_digits by blast
next
  assume ?R
  then obtain sg ip pt d ds where s: "s = sg @ ip @ pt @ d # ds"
    and sg: "sg = [] \<or> sg = ''-''" and ip: "list_all is_digit ip"
    and pt: "pt = [] \<or> pt = ''.''" and d: "is_digit d" and ds: "list_all is_digit ds"
    by blast
  have "d # ds \<in> lang (RPlus RDigit)"
    using d ds unfolding lang_digits1 by blast
  moreover have "pt \<in> lang (ROpt (RChr CHR ''.''))" using pt by (simp only: lang_point)
  ultimately have "pt @ d # ds \<in> lang (RSeq (ROpt (RChr CHR ''.'')) (RPlus RDigit))"
    by (intro lang_RSeq [THEN iffD2]) blast
  moreover have "ip \<in> lang (RStar RDigit)" using ip by (simp only: lang_digits)
  ultimately have "ip @ pt @ d # ds
      \<in> lang (RSeq (RStar RDigit) (RSeq (ROpt (RChr CHR ''.'')) (RPlus RDigit)))"
    by (intro lang_RSeq [THEN iffD2]) blast
  moreover have "sg \<in> lang (ROpt (RChr CHR ''-''))" using sg by (simp only: lang_sign)
  ultimately have "sg @ ip @ pt @ d # ds \<in> lang (RSeq (ROpt (RChr CHR ''-''))
      (RSeq (RStar RDigit) (RSeq (ROpt (RChr CHR ''.'')) (RPlus RDigit))))"
    by (intro lang_RSeq [THEN iffD2]) blast
  then show ?L by (simp only: s numberRegex_def)
qed


lemma not_digit_minus: "\<not> is_digit CHR ''-''" and not_digit_point: "\<not> is_digit CHR ''.''"
  by (simp_all add: is_digit_def)

lemma spec_number_grammar_iff:
  "spec_number_grammar s \<longleftrightarrow>
     (\<exists>sg ip pt d ds. s = sg @ ip @ pt @ d # ds \<and> (sg = [] \<or> sg = ''-'')
        \<and> list_all is_digit ip \<and> (pt = [] \<or> pt = ''.'') \<and> is_digit d \<and> list_all is_digit ds)"
  (is "?L \<longleftrightarrow> ?R")
proof
  assume L: ?L
  define body where "body = (if s \<noteq> [] \<and> hd s = CHR ''-'' then tl s else s)"
  define sg where "sg = (if s \<noteq> [] \<and> hd s = CHR ''-'' then ''-'' else [])"
  define ip where "ip = takeWhile is_digit body"
  define rest where "rest = dropWhile is_digit body"
  have s: "s = sg @ body" by (cases s) (auto simp: sg_def body_def)
  have sg: "sg = [] \<or> sg = ''-''" by (simp add: sg_def)
  have body: "body = ip @ rest" by (simp add: ip_def rest_def)
  have ip: "list_all is_digit ip" by (auto simp: ip_def list_all_iff dest: set_takeWhileD)
  have sc: "if rest = [] then ip \<noteq> []
      else hd rest = CHR ''.'' \<and> tl rest \<noteq> [] \<and> list_all is_digit (tl rest)"
    using L by (simp add: spec_number_grammar_def Let_def body_def ip_def rest_def)
  show ?R
  proof (cases "rest = []")
    case True
    with sc obtain d ds where "ip = d # ds" by (cases ip) auto
    moreover from this ip have "is_digit d" "list_all is_digit ds" by auto
    ultimately have "s = sg @ [] @ [] @ d # ds" using s body True by simp
    with sg \<open>is_digit d\<close> \<open>list_all is_digit ds\<close> show ?thesis
      by (intro exI [of _ sg] exI [of _ "[]"] exI [of _ d] exI [of _ ds]) simp
  next
    case False
    with sc obtain fp where rest: "rest = CHR ''.'' # fp" "fp \<noteq> []" "list_all is_digit fp"
      by (cases rest) auto
    then obtain d ds where "fp = d # ds" "is_digit d" "list_all is_digit ds"
      by (cases fp) auto
    then have "s = sg @ ip @ ''.'' @ d # ds" using s body rest by simp
    with sg ip \<open>is_digit d\<close> \<open>list_all is_digit ds\<close> show ?thesis by blast
  qed
next
  assume ?R
  then obtain sg ip pt d ds where s: "s = sg @ ip @ pt @ d # ds"
    and sg: "sg = [] \<or> sg = ''-''" and ip: "list_all is_digit ip"
    and pt: "pt = [] \<or> pt = ''.''" and d: "is_digit d" and ds: "list_all is_digit ds"
    by blast
  define body where "body = ip @ pt @ d # ds"
  have hd_body: "hd body \<noteq> CHR ''-''"
    using ip pt d not_digit_minus by (cases ip) (auto simp: body_def)
  have body_ne: "body \<noteq> []" by (simp add: body_def)
  have b: "(if s \<noteq> [] \<and> hd s = CHR ''-'' then tl s else s) = body"
    using sg hd_body body_ne by (auto simp: s body_def [symmetric])
  have ipset: "\<forall>x\<in>set ip. is_digit x" using ip by (simp add: list_all_iff)
  show ?L
  proof (cases "pt = []")
    case True
    then have "\<forall>x\<in>set body. is_digit x"
      using ipset d ds by (auto simp: body_def list_all_iff)
    then have tw: "takeWhile is_digit body = body" and dw: "dropWhile is_digit body = []"
      by simp_all
    show ?thesis unfolding spec_number_grammar_def Let_def b tw dw using body_ne by simp
  next
    case False
    then have body: "body = ip @ CHR ''.'' # d # ds" using pt by (simp add: body_def)
    have tw: "takeWhile is_digit body = ip"
      and dw: "dropWhile is_digit body = CHR ''.'' # d # ds"
      using ipset not_digit_point by (simp_all add: body)
    show ?thesis unfolding spec_number_grammar_def Let_def b tw dw using d ds by simp
  qed
qed

text \<open>The pattern accepts exactly the strings of the grammar.\<close>

lemma numberRegex_grammar: "MatchString numberRegex s \<longleftrightarrow> spec_number_grammar s"
  by (simp only: MatchString_lang lang_numberRegex spec_number_grammar_iff)

lemma grammar_rejects:
  "\<not> spec_number_grammar []"
  "\<not> spec_number_grammar ''1.2.3''"
  "\<not> spec_number_grammar ''12a''"
  "\<not> spec_number_grammar ''5.''"
  by (simp_all add: spec_number_grammar_def is_digit_def)

subsection \<open>Parse errors\<close>

text \<open>Whatever is not in the grammar after normalisation is a parse error.\<close>

lemma Parse_no_match:
  assumes "\<not> spec_number_grammar
     (TrimSpace (ReplaceAll (ReplaceAll (ReplaceAll (TrimSpace s)
        (Symbol (DefaultFormat cur)) []) (ThousandsSep (DefaultFormat cur)) [])
        (DecimalSep (DefaultFormat cur)) ''.''))"
  shows "Parse reg oor s cur mode = Inl ErrParseAmount"
  using assms by (simp add: Parse_def Let_def numberRegex_grammar del: MatchString.simps)

text \<open>
  Claim C7 asks that parsing \<^verbatim>\<open>$1,234.56\<close> as US dollars under HalfUp gives 123456 smallest
  units. The string is normalised to \<^verbatim>\<open>1234.56\<close>, which matches the pattern and is read as
  the \<^verbatim>\<open>float64\<close> nearest to 1234.56; \<^verbatim>\<open>New\<close> then scales it by 100 twice, and the amount
  is 12345600.
\<close>

theorem Parse_literal_scaled_twice:
  "Parse example_registry oor ''$1,234.56'' USD RoundHalfUp
     = Inr \<lparr>amount = 12345600, currency = ''USD'', scale = 2, divisor = 100\<rparr>"
proof -
  have "Parse example_registry oor ''$1,234.56'' USD RoundHalfUp
     = New example_registry oor (Finite False (2714826150374277 / 2199023255552)) ''USD''
         RoundHalfUp"
    by (simp add: Parse_def USD_def TrimSpace_example ReplaceAll_symbol ReplaceAll_thousands
        ReplaceAll_decimal TrimSpace_normalized MatchString_example ParseFloat_example
        del: MatchString.simps)
  then show ?thesis by (simp only: New_1234_56)
qed

section \<open>Format\<close>

lemmas char_eval = char_of_def bit_Suc_0_iff

lemma FormatInt_123456: "FormatInt 123456 = ''123456''"
  by (simp add: FormatInt_def FormatNat.simps char_eval)

lemma pad_zeros_123456: "pad_zeros ''123456'' 2 = ''123456''"
  by (simp add: pad_zeros.simps)

lemma group_loop_1234: "group_loop ''1234'' 4 [] = [''1'', ''234'']"
  by (simp add: group_loop.simps Let_def)

text \<open>After the padding loop the digit string is longer than the scale.\<close>

lemma pad_zeros_length: "scl < int (length (pad_zeros v scl))"
proof (induction v scl rule: pad_zeros.induct)
  case (1 v scl)
  then show ?case by (subst pad_zeros.simps) simp
qed

lemma Format_symbol_first:
  assumes "0 \<le> scale m" "sint (amount m) < 0" "SymbolFirst opts"
  shows "\<exists>rest. Format m opts = Inr (''-'' @ Symbol opts @ rest)"
proof -
  have "scale m < int (length (pad_zeros (FormatInt (- amount m)) (scale m)))"
    by (rule pad_zeros_length)
  then show ?thesis using assms by (simp add: Format_def Let_def)
qed

text \<open>
  Claim C8. With symbol \<^verbatim>\<open>$\<close>, decimal separator \<^verbatim>\<open>.\<close>, thousands separator \<^verbatim>\<open>,\<close>, symbol
  first, currency code shown and a space between, 123456 smallest units of US dollars
  (scale 2) are formatted as \<^verbatim>\<open>$ 1,234.56 USD\<close> and -123456 as \<^verbatim>\<open>-$ 1,234.56 USD\<close>. For
  every negative amount (of a Money with a scale that is not negative) formatted symbol
  first, the result starts with \<^verbatim>\<open>-\<close>, followed by the symbol.
\<close>

theorem Format_literals_and_sign:
  "Format \<lparr>amount = 123456, currency = ''USD'', scale = 2, divisor = d\<rparr>
      \<lparr>Symbol = ''$'', DecimalSep = ''.'', ThousandsSep = '','',
       SymbolFirst = True, ShowCurrency = True, SpaceBetween = True\<rparr>
     = Inr ''$ 1,234.56 USD''
   \<and> Format \<lparr>amount = - 123456, currency = ''USD'', scale = 2, divisor = d\<rparr>
      \<lparr>Symbol = ''$'', DecimalSep = ''.'', ThousandsSep = '','',
       SymbolFirst = True, ShowCurrency = True, SpaceBetween = True\<rparr>
     = Inr ''-$ 1,234.56 USD''
   \<and> (0 \<le> scale m \<and> sint (amount m) < 0 \<and> SymbolFirst opts \<longrightarrow>
        (\<exists>rest. Format m opts = Inr (''-'' @ Symbol opts @ rest)))"
proof (intro conjI impI)
  show "Format \<lparr>amount = 123456, currency = ''USD'', scale = 2, divisor = d\<rparr>
      \<lparr>Symbol = ''$'', DecimalSep = ''.'', ThousandsSep = '','',
       SymbolFirst = True, ShowCurrency = True, SpaceBetween = True\<rparr>
     = Inr ''$ 1,234.56 USD''"
    by (simp add: Format_def FormatInt_123456 pad_zeros_123456 group_loop_1234 Let_def)
  show "Format \<lparr>amount = - 123456, currency = ''USD'', scale = 2, divisor = d\<rparr>
      \<lparr>Symbol = ''$'', DecimalSep = ''.'', ThousandsSep = '','',
       SymbolFirst = True, ShowCurrency = True, SpaceBetween = True\<rparr>
     = Inr ''-$ 1,234.56 USD''"
    by (simp add: Format_def FormatInt_123456 pad_zeros_123456 group_loop_1234 Let_def)
next
  assume "0 \<le> scale m \<and> sint (amount m) < 0 \<and> SymbolFirst opts"
  then show "\<exists>rest. Format m opts = Inr (''-'' @ Symbol opts @ rest)"
    by (intro Format_symbol_first) simp_all
qed

text \<open>
  The theorem at -5 yen (scale 0) with the symbol \<^verbatim>\<open>Y\<close> first and nothing else: the result
  is \<^verbatim>\<open>-Y5\<close>.
\<close>

theorem Format_literals_and_sign_witness:
  "0 \<le> scale \<lparr>amount = - 5, currency = ''JPY'', scale = 0, divisor = 1\<rparr>
   \<and> sint (amount \<lparr>amount = - 5, currency = ''JPY'', scale = 0, divisor = 1\<rparr>) < 0
   \<and> SymbolFirst \<lparr>Symbol = ''Y'', DecimalSep = [], ThousandsSep = [],
         SymbolFirst = True, ShowCurrency = False, SpaceBetween = False\<rparr>
   \<and> (\<exists>rest. Format \<lparr>amount = - 5, currency = ''JPY'', scale = 0, divisor = 1\<rparr>
         \<lparr>Symbol = ''Y'', DecimalSep = [], ThousandsSep = [],
          SymbolFirst = True, ShowCurrency = False, SpaceBetween = False\<rparr>
        = Inr (''-'' @ ''Y'' @ rest))"
  using Format_literals_and_sign
    [where m = "\<lparr>amount = - 5, currency = ''JPY'', scale = 0, divisor = 1\<rparr>"
       and opts = "\<lparr>Symbol = ''Y'', DecimalSep = [], ThousandsSep = [],
          SymbolFirst = True, ShowCurrency = False, SpaceBetween = False\<rparr>"
       and d = 0]
  by simp

end
